theory Spec2Isabelle
  imports Main
begin

unbundle bit_operations_syntax

section \<open>Strings\<close>

text \<open>
  A JavaScript string is modelled by the bytes of its UTF-8 encoding (\<^typ>\<open>string\<close>).
  A string with an unpaired surrogate has no UTF-8 encoding and is outside the model
  (\<^verbatim>\<open>encodeURIComponent\<close> throws a URIError on it).
\<close>

fun join :: "string \<Rightarrow> string list \<Rightarrow> string" where
  "join sep [] = []"
| "join sep [x] = x"
| "join sep (x # y # ys) = x @ sep @ join sep (y # ys)"

definition startsWith :: "string \<Rightarrow> string \<Rightarrow> bool" where
  "startsWith s p = (take (length p) s = p)"

definition endsWith :: "string \<Rightarrow> string \<Rightarrow> bool" where
  "endsWith s p = (length p \<le> length s \<and> drop (length s - length p) s = p)"

text \<open>
  The code points \<^verbatim>\<open>String.prototype.trim\<close> removes (WhiteSpace and LineTerminator of
  ECMAScript), each as its UTF-8 bytes: U+0009 to U+000D, U+0020, U+00A0, U+1680,
  U+2000 to U+200A, U+2028, U+2029, U+202F, U+205F, U+3000, U+FEFF.
\<close>

definition js_whitespace :: "string list" where
  "js_whitespace =
     [[CHR 0x09], [CHR 0x0A], [CHR 0x0B], [CHR 0x0C], [CHR 0x0D], [CHR 0x20],
      [CHR 0xC2, CHR 0xA0], [CHR 0xE1, CHR 0x9A, CHR 0x80],
      [CHR 0xE2, CHR 0x80, CHR 0x80], [CHR 0xE2, CHR 0x80, CHR 0x81],
      [CHR 0xE2, CHR 0x80, CHR 0x82], [CHR 0xE2, CHR 0x80, CHR 0x83],
      [CHR 0xE2, CHR 0x80, CHR 0x84], [CHR 0xE2, CHR 0x80, CHR 0x85],
      [CHR 0xE2, CHR 0x80, CHR 0x86], [CHR 0xE2, CHR 0x80, CHR 0x87],
      [CHR 0xE2, CHR 0x80, CHR 0x88], [CHR 0xE2, CHR 0x80, CHR 0x89],
      [CHR 0xE2, CHR 0x80, CHR 0x8A], [CHR 0xE2, CHR 0x80, CHR 0xA8],
      [CHR 0xE2, CHR 0x80, CHR 0xA9], [CHR 0xE2, CHR 0x80, CHR 0xAF],
      [CHR 0xE2, CHR 0x81, CHR 0x9F], [CHR 0xE3, CHR 0x80, CHR 0x80],
      [CHR 0xEF, CHR 0xBB, CHR 0xBF]]"

text \<open>The number of bytes of the table entry the string begins with, 0 when there is none.\<close>

definition ws_len :: "string list \<Rightarrow> string \<Rightarrow> nat" where
  "ws_len table s =
     (case find (\<lambda>w. take (length w) s = w) table of None \<Rightarrow> 0 | Some w \<Rightarrow> length w)"

text \<open>\<open>strip table k s\<close> drops \<open>k\<close> pending bytes, then every leading entry of the table.\<close>

fun strip :: "string list \<Rightarrow> nat \<Rightarrow> string \<Rightarrow> string" where
  "strip table k [] = []"
| "strip table (Suc k) (c # cs) = strip table k cs"
| "strip table 0 (c # cs) =
     (if ws_len table (c # cs) = 0 then c # cs
      else strip table (ws_len table (c # cs) - 1) cs)"

definition trimStart :: "string \<Rightarrow> string" where
  "trimStart s = strip js_whitespace 0 s"

definition trimEnd :: "string \<Rightarrow> string" where
  "trimEnd s = rev (strip (map rev js_whitespace) 0 (rev s))"

definition trim :: "string \<Rightarrow> string" where
  "trim s = trimEnd (trimStart s)"

text \<open>
  \<^verbatim>\<open>toLowerCase\<close> and \<^verbatim>\<open>toUpperCase\<close> on the ASCII letters; other bytes are kept. The
  program only compares the results with ASCII words that no non-ASCII character maps to.
\<close>

definition toLowerCase :: "string \<Rightarrow> string" where
  "toLowerCase s =
     map (\<lambda>c. if 65 \<le> (of_char c :: nat) \<and> (of_char c :: nat) \<le> 90
              then char_of ((of_char c :: nat) + 32) else c) s"

definition toUpperCase :: "string \<Rightarrow> string" where
  "toUpperCase s =
     map (\<lambda>c. if 97 \<le> (of_char c :: nat) \<and> (of_char c :: nat) \<le> 122
              then char_of ((of_char c :: nat) - 32) else c) s"

text \<open>
  \<^verbatim>\<open>encodeURIComponent\<close>: the unreserved characters stay, every other byte of the UTF-8
  encoding becomes \<^verbatim>\<open>%XX\<close> with upper-case hexadecimal digits.
\<close>

definition uri_unreserved :: "char \<Rightarrow> bool" where
  "uri_unreserved c =
     (c \<in> set (''ABCDEFGHIJKLMNOPQRSTUVWXYZabcdefghijklmnopqrstuvwxyz0123456789-_.!~*()''
               @ [CHR 0x27]))"

definition hex_upper :: "nat \<Rightarrow> char" where
  "hex_upper n = ''0123456789ABCDEF'' ! (n mod 16)"

definition hex_lower :: "nat \<Rightarrow> char" where
  "hex_lower n = ''0123456789abcdef'' ! (n mod 16)"

definition encodeURIComponent :: "string \<Rightarrow> string" where
  "encodeURIComponent s =
     concat (map (\<lambda>c. if uri_unreserved c then [c]
                       else [CHR ''%'', hex_upper ((of_char c :: nat) div 16),
                             hex_upper ((of_char c :: nat) mod 16)]) s)"

text \<open>\<^verbatim>\<open>String(n)\<close> for an integer such as \<^verbatim>\<open>Date.now()\<close>.\<close>

function decimal :: "int \<Rightarrow> string" where
  "decimal n =
     (if n < 10 then [''0123456789'' ! nat n]
      else decimal (n div 10) @ [''0123456789'' ! nat (n mod 10)])"
  by pat_completeness auto
termination
  by (relation "measure nat") auto

declare decimal.simps [simp del]

definition String_int :: "int \<Rightarrow> string" where
  "String_int n = (if n < 0 then CHR ''-'' # decimal (- n) else decimal n)"

section \<open>Values and ordinary objects\<close>

text \<open>
  The values a \<^verbatim>\<open>Record<string, unknown>\<close> holds here: strings taken from the form and
  whatever \<^verbatim>\<open>JSON.parse\<close> returns. A number is kept as a numeric literal that denotes it;
  what \<^verbatim>\<open>String\<close> and \<^verbatim>\<open>JSON.stringify\<close> print for it is the platform's business.
  An object is the list of its own enumerable properties in the order \<^verbatim>\<open>Object.entries\<close>
  reports them.
\<close>

datatype jsval =
    JUndefined
  | JNull
  | JBool bool
  | JNum string
  | JStr string
  | JArr "jsval list"
  | JObj "(string \<times> jsval) list"

type_synonym 'v js_object = "(string \<times> 'v) list"

definition is_digit :: "char \<Rightarrow> bool" where
  "is_digit c = (48 \<le> (of_char c :: nat) \<and> (of_char c :: nat) \<le> 57)"

definition digits_value :: "string \<Rightarrow> int" where
  "digits_value s = foldl (\<lambda>acc c. 10 * acc + ((of_char c :: int) - 48)) 0 s"

text \<open>
  An array index is the canonical decimal numeral of an integer below \<open>2^32 - 1\<close>. Keys
  of this form are enumerated first, in ascending numeric order; the other string keys
  follow in the order they were created.
\<close>

definition is_array_index :: "string \<Rightarrow> bool" where
  "is_array_index k =
     (k \<noteq> [] \<and> list_all is_digit k \<and> (k = ''0'' \<or> hd k \<noteq> CHR ''0'')
      \<and> length k \<le> 10 \<and> digits_value k < 4294967295)"

fun insert_index :: "string \<Rightarrow> 'v \<Rightarrow> 'v js_object \<Rightarrow> 'v js_object" where
  "insert_index k v [] = [(k, v)]"
| "insert_index k v ((k', v') # es) =
     (if is_array_index k' \<and> digits_value k' < digits_value k
      then (k', v') # insert_index k v es
      else (k, v) # (k', v') # es)"

text \<open>
  The assignment \<^verbatim>\<open>obj[k] = v\<close> on an object created by \<^verbatim>\<open>{}\<close>. An existing key keeps its
  place and takes the new value. The key \<^verbatim>\<open>__proto__\<close> reaches the accessor inherited from
  \<^verbatim>\<open>Object.prototype\<close>, so no own property is created.
\<close>

definition obj_set :: "'v js_object \<Rightarrow> string \<Rightarrow> 'v \<Rightarrow> 'v js_object" where
  "obj_set obj k v =
     (if k = ''__proto__'' then obj
      else if k \<in> set (map fst obj)
        then map (\<lambda>(k', v'). if k' = k then (k', v) else (k', v')) obj
      else if is_array_index k then insert_index k v obj
      else obj @ [(k, v)])"

section \<open>HMAC-SHA256\<close>

text \<open>
  What \<^verbatim>\<open>crypto.subtle\<close> computes for \<^verbatim>\<open>{ name: "HMAC", hash: "SHA-256" }\<close> (FIPS 180-4 and
  RFC 2104); the round constants and the initial hash value are written in decimal. A 32-bit word is an \<^typ>\<open>int\<close> in \<open>[0, 2^32)\<close>; addition wraps by
  \<open>take_bit 32\<close>. A byte is an \<^typ>\<open>int\<close> in \<open>[0, 256)\<close>.
\<close>

definition add32 :: "int \<Rightarrow> int \<Rightarrow> int" where
  "add32 x y = take_bit 32 (x + y)"

definition rotr :: "nat \<Rightarrow> int \<Rightarrow> int" where
  "rotr n x = drop_bit n x + push_bit (32 - n) (take_bit n x)"

definition K256 :: "int list" where
  "K256 =
    [1116352408, 1899447441, 3049323471, 3921009573, 961987163, 1508970993,
     2453635748, 2870763221, 3624381080, 310598401, 607225278, 1426881987,
     1925078388, 2162078206, 2614888103, 3248222580, 3835390401, 4022224774,
     264347078, 604807628, 770255983, 1249150122, 1555081692, 1996064986,
     2554220882, 2821834349, 2952996808, 3210313671, 3336571891, 3584528711,
     113926993, 338241895, 666307205, 773529912, 1294757372, 1396182291,
     1695183700, 1986661051, 2177026350, 2456956037, 2730485921, 2820302411,
     3259730800, 3345764771, 3516065817, 3600352804, 4094571909, 275423344,
     430227734, 506948616, 659060556, 883997877, 958139571, 1322822218,
     1537002063, 1747873779, 1955562222, 2024104815, 2227730452, 2361852424,
     2428436474, 2756734187, 3204031479, 3329325298]"

definition H256 :: "int list" where
  "H256 = [1779033703, 3144134277, 1013904242, 2773480762,
           1359893119, 2600822924, 528734635, 1541459225]"

definition ssig0 :: "int \<Rightarrow> int" where
  "ssig0 x = rotr 7 x XOR rotr 18 x XOR drop_bit 3 x"

definition ssig1 :: "int \<Rightarrow> int" where
  "ssig1 x = rotr 17 x XOR rotr 19 x XOR drop_bit 10 x"

definition bsig0 :: "int \<Rightarrow> int" where
  "bsig0 x = rotr 2 x XOR rotr 13 x XOR rotr 22 x"

definition bsig1 :: "int \<Rightarrow> int" where
  "bsig1 x = rotr 6 x XOR rotr 11 x XOR rotr 25 x"

definition ch :: "int \<Rightarrow> int \<Rightarrow> int \<Rightarrow> int" where
  "ch x y z = (x AND y) XOR ((4294967295 - x) AND z)"

definition maj :: "int \<Rightarrow> int \<Rightarrow> int \<Rightarrow> int" where
  "maj x y z = (x AND y) XOR (x AND z) XOR (y AND z)"

text \<open>One round on the working variables \<open>[a, b, c, d, e, f, g, h]\<close>.\<close>

definition round_finish :: "int list \<Rightarrow> int \<Rightarrow> int \<Rightarrow> int list" where
  "round_finish st t1 t2 =
     [add32 t1 t2, st ! 0, st ! 1, st ! 2, add32 (st ! 3) t1, st ! 4, st ! 5, st ! 6]"

definition round_step :: "int list \<Rightarrow> int \<Rightarrow> int \<Rightarrow> int list" where
  "round_step st k w =
     round_finish st
       (add32 (add32 (add32 (add32 (st ! 7) (bsig1 (st ! 4))) (ch (st ! 4) (st ! 5) (st ! 6))) k) w)
       (add32 (bsig0 (st ! 0)) (maj (st ! 0) (st ! 1) (st ! 2)))"

text \<open>
  The message schedule as a window of sixteen words \<open>W\<^sub>t .. W\<^sub>t\<^sub>+\<^sub>1\<^sub>5\<close>: the next window drops
  \<open>W\<^sub>t\<close> and appends \<open>W\<^sub>t\<^sub>+\<^sub>1\<^sub>6\<close>.
\<close>

definition sched :: "int list \<Rightarrow> int list" where
  "sched ws =
     tl ws @ [add32 (add32 (add32 (ssig1 (ws ! 14)) (ws ! 9)) (ssig0 (ws ! 1))) (ws ! 0)]"

fun rounds :: "int list \<Rightarrow> int list \<Rightarrow> int list \<Rightarrow> int list" where
  "rounds st [] ws = st"
| "rounds st (k # ks) ws = rounds (round_step st k (ws ! 0)) ks (sched ws)"

definition compress :: "int list \<Rightarrow> int list \<Rightarrow> int list" where
  "compress st blk = map2 add32 st (rounds st K256 blk)"

fun words_of :: "int list \<Rightarrow> int list" where
  "words_of (a # b # c # d # r) =
     (push_bit 24 a + push_bit 16 b + push_bit 8 c + d) # words_of r"
| "words_of _ = []"

definition bytes_of_word :: "int \<Rightarrow> int list" where
  "bytes_of_word w =
     [drop_bit 24 w, take_bit 8 (drop_bit 16 w), take_bit 8 (drop_bit 8 w), take_bit 8 w]"

definition pad :: "int list \<Rightarrow> int list" where
  "pad m =
     m @ [0x80] @ replicate ((119 - length m mod 64) mod 64) 0
       @ map (\<lambda>i. take_bit 8 (drop_bit (8 * (7 - i)) (int (8 * length m)))) [0..<8]"

fun blocks :: "int list \<Rightarrow> int list \<Rightarrow> int list" where
  "blocks st [] = st"
| "blocks st (w # ws) = blocks (compress st (take 16 (w # ws))) (drop 16 (w # ws))"

definition sha256 :: "int list \<Rightarrow> int list" where
  "sha256 m = concat (map bytes_of_word (blocks H256 (words_of (pad m))))"

definition hmac_sha256 :: "int list \<Rightarrow> int list \<Rightarrow> int list" where
  "hmac_sha256 key msg =
     (let k0 = (if length key > 64 then sha256 key else key);
          k = k0 @ replicate (64 - length k0) 0
      in sha256 (map (\<lambda>b. b XOR 0x5c) k @ sha256 (map (\<lambda>b. b XOR 0x36) k @ msg)))"

text \<open>\<^verbatim>\<open>new TextEncoder().encode\<close>: the UTF-8 bytes of the string.\<close>

definition TextEncoder_encode :: "string \<Rightarrow> int list" where
  "TextEncoder_encode s = map of_char s"

section \<open>The playground: request signing\<close>

text \<open>
  The entries of \<^verbatim>\<open>queryParams\<close> and \<^verbatim>\<open>headers\<close> in \<^verbatim>\<open>PlaygroundForm\<close>:
  \<^verbatim>\<open>{ name: string; value: string; active: boolean; enum?: string[] }\<close>. A field keeps
  the name of the member, after a prefix for its record; an optional member is an
  \<open>option\<close>.
\<close>

record param =
  p_name :: string
  p_value :: string
  p_active :: bool
  p_enum :: "string list option"

datatype bodyMode = TextMode | FileMode | MultipartMode

typedecl File

datatype field_value = FieldText string | FieldFile File

record multipartField =
  mf_name :: string
  mf_value :: field_value
  mf_active :: bool

record PlaygroundForm =
  f_apiSecret :: "string option"
  f_body :: string
  f_bodyMode :: "bodyMode option"
  f_file :: "File option"
  f_multipartFormFields :: "multipartField list"
  f_queryParams :: "param list"
  f_pathParams :: "(string \<times> string) list"
  f_headers :: "param list"
  f_identity :: "string option"

text \<open>A thrown \<^verbatim>\<open>Error\<close> or \<^verbatim>\<open>TypeError\<close> with its message.\<close>

datatype error = Error string | TypeError string

text \<open>
  What the platform supplies: \<^verbatim>\<open>JSON.parse\<close> (\<open>None\<close> when it throws),
  \<^verbatim>\<open>JSON.stringify\<close>, \<^verbatim>\<open>String\<close> on a number, and \<^verbatim>\<open>Date.now()\<close>.
\<close>

record platform =
  Date_now :: int
  JSON_parse :: "string \<Rightarrow> jsval option"
  JSON_stringify :: "jsval \<Rightarrow> string"
  Number_toString :: "string \<Rightarrow> string"

fun serializeValue :: "platform \<Rightarrow> jsval \<Rightarrow> string" where
  "serializeValue pf JNull = []"
| "serializeValue pf JUndefined = []"
| "serializeValue pf (JArr xs) = JSON_stringify pf (JArr xs)"
| "serializeValue pf (JObj es) = JSON_stringify pf (JObj es)"
| "serializeValue pf (JBool b) = (if b then ''true'' else ''false'')"
| "serializeValue pf (JNum n) = Number_toString pf n"
| "serializeValue pf (JStr s) = s"

text \<open>The \<^verbatim>\<open>forEach\<close> of \<^verbatim>\<open>buildQueryString\<close>, pushing onto \<^verbatim>\<open>pairs\<close>.\<close>

fun buildQueryString_pairs ::
  "platform \<Rightarrow> jsval js_object \<Rightarrow> string list \<Rightarrow> string list" where
  "buildQueryString_pairs pf [] pairs = pairs"
| "buildQueryString_pairs pf ((key, v) # es) pairs =
     (if v \<noteq> JNull \<and> v \<noteq> JUndefined
      then buildQueryString_pairs pf es
             (pairs @ [key @ ''='' @ encodeURIComponent (serializeValue pf v)])
      else buildQueryString_pairs pf es pairs)"

definition buildQueryString :: "platform \<Rightarrow> jsval js_object \<Rightarrow> string" where
  "buildQueryString pf params = join ''&'' (buildQueryString_pairs pf params [])"

text \<open>\<^verbatim>\<open>bytes[i].toString(16).padStart(2, "0")\<close>, appended for every byte.\<close>

fun bufferToHex_loop :: "int list \<Rightarrow> string \<Rightarrow> string" where
  "bufferToHex_loop [] hex = hex"
| "bufferToHex_loop (b # bs) hex =
     bufferToHex_loop bs (hex @ [hex_lower (nat (b div 16)), hex_lower (nat (b mod 16))])"

definition bufferToHex :: "int list \<Rightarrow> string" where
  "bufferToHex buffer = bufferToHex_loop buffer []"

definition hmacSha256Hex :: "string \<Rightarrow> string \<Rightarrow> string" where
  "hmacSha256Hex secret message =
     bufferToHex (hmac_sha256 (TextEncoder_encode secret) (TextEncoder_encode message))"

fun toRecordFromActivePairs_loop :: "param list \<Rightarrow> jsval js_object \<Rightarrow> jsval js_object" where
  "toRecordFromActivePairs_loop [] out = out"
| "toRecordFromActivePairs_loop (p # ps) out =
     (if p_name p = [] then toRecordFromActivePairs_loop ps out
      else if \<not> p_active p then toRecordFromActivePairs_loop ps out
      else toRecordFromActivePairs_loop ps (obj_set out (p_name p) (JStr (p_value p))))"

definition toRecordFromActivePairs :: "param list \<Rightarrow> jsval js_object" where
  "toRecordFromActivePairs pairs = toRecordFromActivePairs_loop pairs []"

definition tryParseJsonObject :: "platform \<Rightarrow> string \<Rightarrow> jsval js_object option" where
  "tryParseJsonObject pf text =
     (let t = trim text in
      if t = [] then None
      else if \<not> (startsWith t ''{'' \<and> endsWith t ''}'') then None
      else (case JSON_parse pf t of
              Some (JObj parsed) \<Rightarrow> Some parsed
            | _ \<Rightarrow> None))"

text \<open>\<^verbatim>\<open>Array.prototype.findIndex\<close>: the first index that satisfies the test, else \<open>-1\<close>.\<close>

fun findIndex_from :: "('a \<Rightarrow> bool) \<Rightarrow> 'a list \<Rightarrow> int \<Rightarrow> int" where
  "findIndex_from P [] i = - 1"
| "findIndex_from P (x # xs) i = (if P x then i else findIndex_from P xs (i + 1))"

definition findIndex :: "('a \<Rightarrow> bool) \<Rightarrow> 'a list \<Rightarrow> int" where
  "findIndex P xs = findIndex_from P xs 0"

definition upsertActiveParam :: "param list \<Rightarrow> string \<Rightarrow> string \<Rightarrow> param list" where
  "upsertActiveParam params name v =
     (let idx = findIndex (\<lambda>p. p_name p = name) params in
      if idx \<ge> 0
      then params[nat idx := (params ! nat idx)\<lparr>p_name := p_name (params ! nat idx),
                                                  p_value := v, p_active := True\<rparr>]
      else params @ [\<lparr>p_name = name, p_value = v, p_active = True, p_enum = Some []\<rparr>])"

definition getHeaderValue :: "param list \<Rightarrow> string \<Rightarrow> string" where
  "getHeaderValue headers headerName =
     (case find (\<lambda>x. p_name x = headerName) headers of
        None \<Rightarrow> []
      | Some h \<Rightarrow> if \<not> p_active h then [] else trim (p_value h))"

text \<open>
  The signing block of \<^verbatim>\<open>mutationFn\<close> (taken when \<^verbatim>\<open>isSigned\<close>), its local constants named
  as in the source. They are computed from \<^verbatim>\<open>signedData\<close> as it is after the upsert of
  \<^verbatim>\<open>timestamp\<close>.
\<close>

definition qp :: "PlaygroundForm \<Rightarrow> jsval js_object" where
  "qp signedData =
     toRecordFromActivePairs (filter (\<lambda>p. p_name p \<noteq> ''signature'') (f_queryParams signedData))"

definition bodyParams :: "platform \<Rightarrow> PlaygroundForm \<Rightarrow> jsval js_object option" where
  "bodyParams pf signedData =
     (if f_bodyMode signedData = Some TextMode
      then tryParseJsonObject pf (f_body signedData) else None)"

definition queryParamsString :: "platform \<Rightarrow> PlaygroundForm \<Rightarrow> string" where
  "queryParamsString pf signedData = buildQueryString pf (qp signedData)"

definition bodyParamsString :: "platform \<Rightarrow> PlaygroundForm \<Rightarrow> string" where
  "bodyParamsString pf signedData =
     (case bodyParams pf signedData of None \<Rightarrow> [] | Some b \<Rightarrow> buildQueryString pf b)"

definition toSign :: "platform \<Rightarrow> PlaygroundForm \<Rightarrow> string" where
  "toSign pf signedData =
     join ''&'' (filter (\<lambda>s. s \<noteq> [])
                   [queryParamsString pf signedData, bodyParamsString pf signedData])"

definition withTimestamp :: "platform \<Rightarrow> PlaygroundForm \<Rightarrow> PlaygroundForm" where
  "withTimestamp pf signedData =
     signedData\<lparr>f_queryParams :=
       upsertActiveParam (f_queryParams signedData) ''timestamp'' (String_int (Date_now pf))\<rparr>"

definition withSignature :: "string \<Rightarrow> PlaygroundForm \<Rightarrow> PlaygroundForm" where
  "withSignature signature signedData =
     signedData\<lparr>f_queryParams :=
       upsertActiveParam (f_queryParams signedData) ''signature'' signature\<rparr>"

definition signRequest :: "platform \<Rightarrow> string \<Rightarrow> PlaygroundForm \<Rightarrow> error + PlaygroundForm" where
  "signRequest pf apiKeyHeaderName signedData =
     (let apiSecret = trim (case f_apiSecret signedData of None \<Rightarrow> [] | Some s \<Rightarrow> s) in
      if apiSecret = [] then Inl (Error ''API Secret is required for signed endpoints.'')
      else
        let apiKey = getHeaderValue (f_headers signedData) apiKeyHeaderName in
        if apiKey = []
        then Inl (Error (''Missing '' @ apiKeyHeaderName
                         @ '' header. Enable it in Headers and provide your API key.''))
        else
          let stamped = withTimestamp pf signedData;
              signature = hmacSha256Hex apiSecret (toSign pf stamped)
          in Inr (withSignature signature stamped))"

section \<open>The playground: submission\<close>

text \<open>The properties of the \<^verbatim>\<open>Playground\<close> component that \<^verbatim>\<open>mutationFn\<close> reads.\<close>

record props =
  pr_server :: "string option"
  pr_selectedServer :: string
  pr_url :: string
  pr_method :: string
  pr_isSigned :: bool
  pr_apiKeyHeaderName :: string

datatype request_body =
    BodyString string
  | BodyFile File
  | BodyFormData "(string \<times> field_value) list"

record request =
  rq_url :: string
  rq_method :: string
  rq_headers :: "(string \<times> string) list"
  rq_body :: "request_body option"

text \<open>The JSON document posted to the proxy.\<close>

record envelope =
  en_method :: string
  en_url :: string
  en_headers :: "(string \<times> string) list"
  en_body :: "string option"

text \<open>
  The collaborators of \<^verbatim>\<open>mutationFn\<close> that are defined elsewhere:
  \<^item> \<open>createUrl\<close>, imported from \<^verbatim>\<open>./createUrl.js\<close>, which only reads the form;
  \<^item> \<open>new_Headers\<close>, the entries of \<^verbatim>\<open>new window.Headers(pairs)\<close>;
  \<^item> \<open>authorizeRequest\<close>, for the lines that build \<^verbatim>\<open>tmpReq\<close>, let the selected identity
    authorize it and read its headers back;
  \<^item> the two overrides \<^verbatim>\<open>getProxyUrl\<close> looks at.
\<close>

record environment =
  createUrl :: "string \<Rightarrow> string \<Rightarrow> PlaygroundForm \<Rightarrow> error + string"
  new_Headers :: "(string \<times> string) list \<Rightarrow> error + (string \<times> string) list"
  authorizeRequest :: "string option \<Rightarrow> request \<Rightarrow> error + (string \<times> string) list"
  window_proxy_url :: "string option"
  env_proxy_url :: "string option"

definition NO_IDENTITY :: string where
  "NO_IDENTITY = ''__none''"

definition getProxyUrl :: "environment \<Rightarrow> string" where
  "getProxyUrl env =
     (case window_proxy_url env of
        Some w \<Rightarrow> if w \<noteq> [] then w
                 else (case env_proxy_url env of
                         Some e \<Rightarrow> if e \<noteq> [] then e else ''/__zudoku/playground/proxy''
                       | None \<Rightarrow> ''/__zudoku/playground/proxy'')
      | None \<Rightarrow> (case env_proxy_url env of
                   Some e \<Rightarrow> if e \<noteq> [] then e else ''/__zudoku/playground/proxy''
                 | None \<Rightarrow> ''/__zudoku/playground/proxy''))"

text \<open>\<^verbatim>\<open>hdrs.delete(name)\<close> on the entries of a \<^verbatim>\<open>Headers\<close> object.\<close>

definition Headers_delete :: "string \<Rightarrow> (string \<times> string) list \<Rightarrow> (string \<times> string) list" where
  "Headers_delete name hdrs = filter (\<lambda>(k, v). toLowerCase k \<noteq> toLowerCase name) hdrs"

text \<open>The \<^verbatim>\<open>switch\<close> on \<^verbatim>\<open>bodyMode\<close>: the body and the headers it leaves.\<close>

definition selectBody ::
  "PlaygroundForm \<Rightarrow> (string \<times> string) list
     \<Rightarrow> request_body option \<times> (string \<times> string) list" where
  "selectBody signedData hdrs =
     (case f_bodyMode signedData of
        Some FileMode \<Rightarrow>
          (map_option BodyFile (f_file signedData), Headers_delete ''Content-Type'' hdrs)
      | Some MultipartMode \<Rightarrow>
          (Some (BodyFormData
             (map (\<lambda>field. (mf_name field, mf_value field))
                (filter (\<lambda>field. mf_name field \<noteq> [] \<and> mf_active field)
                   (f_multipartFormFields signedData)))),
           Headers_delete ''Content-Type'' hdrs)
      | _ \<Rightarrow> (if f_body signedData = [] then None else Some (BodyString (f_body signedData)),
              hdrs))"

definition requestBodyForSend :: "string \<Rightarrow> request_body option \<Rightarrow> request_body option" where
  "requestBodyForSend method body =
     (if toUpperCase method \<in> set [''GET'', ''HEAD''] then None else body)"

text \<open>The \<^verbatim>\<open>body\<close> member of the envelope: present only for a string.\<close>

fun envelopeBody :: "request_body option \<Rightarrow> string option" where
  "envelopeBody (Some (BodyString s)) = Some s"
| "envelopeBody _ = None"

text \<open>The \<^verbatim>\<open>catch\<close> around the identity hook and the proxy call.\<close>

fun remapError :: "error \<Rightarrow> error" where
  "remapError (TypeError m) =
     Error ''The request failed, possibly due to network issues or proxy issues.''"
| "remapError e = e"

text \<open>What \<^verbatim>\<open>mutationFn\<close> does to the outside, in order.\<close>

datatype effect =
    Authorize "string option" request
  | ProxyFetch string envelope

text \<open>
  \<^verbatim>\<open>mutationFn\<close> up to the call of the proxy. The result is the envelope posted, or the
  error the submission is rejected with before that; the first component lists the
  effects performed.
\<close>

definition mutationFn ::
  "platform \<Rightarrow> environment \<Rightarrow> props \<Rightarrow> PlaygroundForm
     \<Rightarrow> effect list \<times> (error + envelope)" where
  "mutationFn pf env pr data =
     (case (if pr_isSigned pr then signRequest pf (pr_apiKeyHeaderName pr) data else Inr data) of
        Inl e \<Rightarrow> ([], Inl e)
      | Inr signedData \<Rightarrow>
     (case createUrl env (case pr_server pr of Some s \<Rightarrow> s | None \<Rightarrow> pr_selectedServer pr)
             (pr_url pr) signedData of
        Inl e \<Rightarrow> ([], Inl e)
      | Inr finalUrl \<Rightarrow>
     (case new_Headers env
             (map (\<lambda>h. (p_name h, p_value h))
                (filter (\<lambda>h. p_name h \<noteq> [] \<and> p_active h) (f_headers signedData))) of
        Inl e \<Rightarrow> ([], Inl e)
      | Inr hdrs0 \<Rightarrow>
        let (body, hdrs) = selectBody signedData hdrs0;
            toSend = requestBodyForSend (pr_method pr) body;
            tmpReq = \<lparr>rq_url = finalUrl, rq_method = pr_method pr, rq_headers = hdrs,
                      rq_body = toSend\<rparr>;
            post = (\<lambda>requestHeadersForSend.
                      \<lparr>en_method = toUpperCase (pr_method pr), en_url = finalUrl,
                       en_headers = requestHeadersForSend, en_body = envelopeBody toSend\<rparr>)
        in if f_identity signedData \<noteq> Some NO_IDENTITY
           then (case authorizeRequest env (f_identity signedData) tmpReq of
                   Inl e \<Rightarrow> ([Authorize (f_identity signedData) tmpReq], Inl (remapError e))
                 | Inr authorized \<Rightarrow>
                     ([Authorize (f_identity signedData) tmpReq,
                       ProxyFetch (getProxyUrl env) (post authorized)],
                      Inr (post authorized)))
           else ([ProxyFetch (getProxyUrl env) (post hdrs)], Inr (post hdrs)))))"

section \<open>The proxy forwarder\<close>

record ProxyBody =
  pb_method :: "string option"
  pb_url :: "string option"
  pb_headers :: "(string \<times> string) list option"
  pb_body :: "string option"

text \<open>The second argument of the upstream \<^verbatim>\<open>fetch\<close>, with its first.\<close>

record fetch_call =
  fc_url :: string
  fc_method :: string
  fc_headers :: "string js_object"
  fc_body :: "string option"

record upstream_response =
  up_status :: nat
  up_headers :: "(string \<times> string) list"
  up_text :: string
  up_content_type :: "string option"

record proxy_payload =
  pp_status :: nat
  pp_headers :: "(string \<times> string) list"
  pp_body :: string
  pp_size :: nat
  pp_contentType :: string

datatype reply_body = Text string | Json proxy_payload

record reply =
  r_cors :: "(string \<times> string) list"
  r_status :: nat
  r_type :: "string option"
  r_body :: reply_body

definition setCors :: "string option \<Rightarrow> (string \<times> string) list" where
  "setCors origin =
     (case origin of
        Some orig \<Rightarrow> if orig \<noteq> [] then [(''Access-Control-Allow-Origin'', orig)] else []
      | None \<Rightarrow> [])
     @ [(''Vary'', ''Origin''), (''Access-Control-Allow-Headers'', ''content-type''),
        (''Access-Control-Allow-Methods'', ''POST, OPTIONS'')]"

text \<open>The loop that fills \<^verbatim>\<open>headersObj\<close>.\<close>

fun headersObj_loop :: "(string \<times> string) list \<Rightarrow> string js_object \<Rightarrow> string js_object" where
  "headersObj_loop [] headersObj = headersObj"
| "headersObj_loop ((k, v) # hs) headersObj =
     (if k = [] then headersObj_loop hs headersObj
      else if toLowerCase k \<in> set [''host'', ''connection'', ''content-length'']
        then headersObj_loop hs headersObj
      else headersObj_loop hs (obj_set headersObj k v))"

definition headersObj :: "ProxyBody \<Rightarrow> string js_object" where
  "headersObj payload =
     headersObj_loop (case pb_headers payload of None \<Rightarrow> [] | Some hs \<Rightarrow> hs) []"

text \<open>
  \<^verbatim>\<open>text.length\<close> counts UTF-16 code units: one for every character, two for a
  character of four UTF-8 bytes.
\<close>

definition utf16_length :: "string \<Rightarrow> nat" where
  "utf16_length s =
     length (filter (\<lambda>c. (of_char c :: nat) < 128 \<or> 192 \<le> (of_char c :: nat)) s)
     + length (filter (\<lambda>c. 240 \<le> (of_char c :: nat)) s)"

text \<open>\<^verbatim>\<open>err.message\<close>.\<close>

fun message :: "error \<Rightarrow> string" where
  "message (Error m) = m"
| "message (TypeError m) = m"

definition failed :: "string option \<Rightarrow> string \<Rightarrow> reply" where
  "failed origin m =
     \<lparr>r_cors = setCors origin, r_status = 500, r_type = Some ''text/plain'', r_body = Text m\<rparr>"

definition rejected :: "string option \<Rightarrow> string \<Rightarrow> reply" where
  "rejected origin m =
     \<lparr>r_cors = setCors origin, r_status = 400, r_type = None, r_body = Text m\<rparr>"

definition succeeded :: "string option \<Rightarrow> upstream_response \<Rightarrow> reply" where
  "succeeded origin up =
     \<lparr>r_cors = setCors origin, r_status = 200, r_type = Some ''application/json'',
      r_body = Json
        \<lparr>pp_status = up_status up, pp_headers = up_headers up, pp_body = up_text up,
         pp_size = utf16_length (up_text up),
         pp_contentType = (case up_content_type up of None \<Rightarrow> [] | Some t \<Rightarrow> t)\<rparr>\<rparr>"

text \<open>\<^verbatim>\<open>!payload?.url\<close>: the member is missing or the empty string.\<close>

definition falsy :: "string option \<Rightarrow> bool" where
  "falsy x = (x = None \<or> x = Some [])"

text \<open>
  The handler of \<^verbatim>\<open>POST\<close>. \<open>newURL\<close> gives the \<^verbatim>\<open>protocol\<close> of \<^verbatim>\<open>new URL(url)\<close>, \<open>None\<close> when
  the constructor throws; \<open>upstream\<close> is the network; \<open>readJson\<close> is what \<^verbatim>\<open>readJson\<close>
  gives, at the type \<^verbatim>\<open>ProxyBody\<close>. The result lists the upstream calls made and the reply.
\<close>

definition upstream_call :: "ProxyBody \<Rightarrow> fetch_call" where
  "upstream_call payload =
     (let method = toUpperCase (case pb_method payload of None \<Rightarrow> [] | Some m \<Rightarrow> m);
          url = (case pb_url payload of None \<Rightarrow> [] | Some u \<Rightarrow> u)
      in \<lparr>fc_url = url, fc_method = method, fc_headers = headersObj payload,
          fc_body = (if method \<in> set [''GET'', ''HEAD''] then None else pb_body payload)\<rparr>)"

definition proxy_forward ::
  "(fetch_call \<Rightarrow> error + upstream_response) \<Rightarrow> string option \<Rightarrow> ProxyBody
     \<Rightarrow> fetch_call list \<times> reply" where
  "proxy_forward upstream origin payload =
     (case upstream (upstream_call payload) of
        Inl e \<Rightarrow> ([upstream_call payload], failed origin (message e))
      | Inr up \<Rightarrow> ([upstream_call payload], succeeded origin up))"

definition proxy_checked ::
  "(string \<Rightarrow> string option) \<Rightarrow> (fetch_call \<Rightarrow> error + upstream_response)
     \<Rightarrow> string option \<Rightarrow> ProxyBody \<Rightarrow> fetch_call list \<times> reply" where
  "proxy_checked newURL upstream origin payload =
     (if falsy (pb_url payload) \<or> falsy (pb_method payload)
      then ([], rejected origin ''Invalid payload. Expected { method, url, headers?, body? }'')
      else (case newURL (case pb_url payload of None \<Rightarrow> [] | Some u \<Rightarrow> u) of
              None \<Rightarrow> ([], rejected origin ''Invalid URL'')
            | Some protocol \<Rightarrow>
                if protocol \<noteq> ''https:''
                then ([], rejected origin ''Only https URLs are allowed'')
                else proxy_forward upstream origin payload))"

definition proxy_post ::
  "(string \<Rightarrow> string option) \<Rightarrow> (fetch_call \<Rightarrow> error + upstream_response)
     \<Rightarrow> string option \<Rightarrow> error + ProxyBody \<Rightarrow> fetch_call list \<times> reply" where
  "proxy_post newURL upstream origin readJson =
     (case readJson of
        Inl e \<Rightarrow> ([], failed origin (message e))
      | Inr payload \<Rightarrow> proxy_checked newURL upstream origin payload)"

definition proxy_options :: "string option \<Rightarrow> reply" where
  "proxy_options origin =
     \<lparr>r_cors = setCors origin, r_status = 204, r_type = None, r_body = Text []\<rparr>"

section \<open>The form state as shared objects\<close>

text \<open>
  \<^verbatim>\<open>mutationFn\<close> receives the form state by reference. To tell what it writes, the arrays
  \<^verbatim>\<open>queryParams\<close> and \<^verbatim>\<open>headers\<close> and their entries live in a store: an address is an
  index, an allocation appends a cell, an array holds the addresses of its entries.
\<close>

record store =
  objs :: "param list"
  arrs :: "nat list list"

record form_ref =
  fr_apiSecret :: "string option"
  fr_body :: string
  fr_bodyMode :: "bodyMode option"
  fr_file :: "File option"
  fr_multipartFormFields :: "multipartField list"
  fr_queryParams :: nat
  fr_pathParams :: "(string \<times> string) list"
  fr_headers :: nat
  fr_identity :: "string option"

definition array_at :: "store \<Rightarrow> nat \<Rightarrow> param list" where
  "array_at st a = map (\<lambda>obj. objs st ! obj) (arrs st ! a)"

text \<open>The form a reference denotes in a store.\<close>

definition deref :: "store \<Rightarrow> form_ref \<Rightarrow> PlaygroundForm" where
  "deref st r =
     \<lparr>f_apiSecret = fr_apiSecret r, f_body = fr_body r, f_bodyMode = fr_bodyMode r,
      f_file = fr_file r, f_multipartFormFields = fr_multipartFormFields r,
      f_queryParams = array_at st (fr_queryParams r), f_pathParams = fr_pathParams r,
      f_headers = array_at st (fr_headers r), f_identity = fr_identity r\<rparr>"

text \<open>\<^verbatim>\<open>[...xs]\<close> and \<^verbatim>\<open>xs.filter(test)\<close>: a new array of the same entries.\<close>

definition new_array :: "store \<Rightarrow> nat list \<Rightarrow> store \<times> nat" where
  "new_array st elems = (st\<lparr>arrs := arrs st @ [elems]\<rparr>, length (arrs st))"

definition new_object :: "store \<Rightarrow> param \<Rightarrow> store \<times> nat" where
  "new_object st p = (st\<lparr>objs := objs st @ [p]\<rparr>, length (objs st))"

text \<open>
  \<^verbatim>\<open>upsertActiveParam\<close> on the array at \<open>a\<close>: \<^verbatim>\<open>params[idx] = { ... }\<close> stores a new object
  in the array, \<^verbatim>\<open>params.push({ ... })\<close> extends it.
\<close>

definition upsertActiveParam_at :: "store \<Rightarrow> nat \<Rightarrow> string \<Rightarrow> string \<Rightarrow> store" where
  "upsertActiveParam_at st a name v =
     (let params = arrs st ! a;
          idx = findIndex (\<lambda>obj. p_name (objs st ! obj) = name) params in
      if idx \<ge> 0
      then
        let (st1, fresh) =
              new_object st ((objs st ! (params ! nat idx))
                               \<lparr>p_name := p_name (objs st ! (params ! nat idx)),
                                p_value := v, p_active := True\<rparr>)
        in st1\<lparr>arrs := (arrs st1)[a := params[nat idx := fresh]]\<rparr>
      else
        let (st1, fresh) =
              new_object st \<lparr>p_name = name, p_value = v, p_active = True, p_enum = Some []\<rparr>
        in st1\<lparr>arrs := (arrs st1)[a := params @ [fresh]]\<rparr>)"

text \<open>The copy \<^verbatim>\<open>signedData\<close> made at the start of \<^verbatim>\<open>mutationFn\<close>.\<close>

definition copyForm :: "store \<Rightarrow> form_ref \<Rightarrow> store \<times> form_ref" where
  "copyForm st data =
     (let (st1, queryParams) = new_array st (arrs st ! fr_queryParams data);
          (st2, headers) = new_array st1 (arrs st1 ! fr_headers data)
      in (st2, data\<lparr>fr_queryParams := queryParams, fr_headers := headers\<rparr>))"

text \<open>The signing block on the store.\<close>

definition signRequest_at ::
  "platform \<Rightarrow> string \<Rightarrow> store \<Rightarrow> form_ref \<Rightarrow> store \<times> (error + form_ref)" where
  "signRequest_at pf apiKeyHeaderName st signedData =
     (let apiSecret = trim (case fr_apiSecret signedData of None \<Rightarrow> [] | Some s \<Rightarrow> s) in
      if apiSecret = [] then (st, Inl (Error ''API Secret is required for signed endpoints.''))
      else
        let apiKey = getHeaderValue (array_at st (fr_headers signedData)) apiKeyHeaderName in
        if apiKey = []
        then (st, Inl (Error (''Missing '' @ apiKeyHeaderName
                              @ '' header. Enable it in Headers and provide your API key.'')))
        else
          let st1 = upsertActiveParam_at st (fr_queryParams signedData) ''timestamp''
                      (String_int (Date_now pf));
              (st2, filtered) =
                 new_array st1 (filter (\<lambda>obj. p_name (objs st1 ! obj) \<noteq> ''signature'')
                                  (arrs st1 ! fr_queryParams signedData));
              signature = hmacSha256Hex apiSecret (toSign pf (deref st2 signedData))
          in (upsertActiveParam_at st2 (fr_queryParams signedData) ''signature'' signature,
              Inr signedData))"

text \<open>
  The writes of \<^verbatim>\<open>mutationFn\<close>: the copy, then the signing block. What follows in the source
  reads \<^verbatim>\<open>signedData\<close> and builds new values from it.
\<close>

definition mutationFn_at ::
  "platform \<Rightarrow> props \<Rightarrow> store \<Rightarrow> form_ref \<Rightarrow> store \<times> (error + form_ref)" where
  "mutationFn_at pf pr st data =
     (let (st1, signedData) = copyForm st data in
      if pr_isSigned pr then signRequest_at pf (pr_apiKeyHeaderName pr) st1 signedData
      else (st1, Inr signedData))"

section \<open>Notions the statements use\<close>

subsection \<open>The specification's wording\<close>

text \<open>
  The forwarded headers as the specification words them: the supplied list without the
  entries named \<^verbatim>\<open>host\<close>, \<^verbatim>\<open>connection\<close> or \<^verbatim>\<open>content-length\<close> in any letter case.
\<close>

definition spec_forwarded_headers :: "(string \<times> string) list \<Rightarrow> (string \<times> string) list" where
  "spec_forwarded_headers hs =
     filter (\<lambda>(k, v). toLowerCase k \<notin> set [''host'', ''connection'', ''content-length'']) hs"

text \<open>
  The query string as the specification words it: the entries whose value is not
  \<^verbatim>\<open>undefined\<close>, each as \<^verbatim>\<open>key=percent-encode(value)\<close>, joined by \<^verbatim>\<open>&\<close> in the order of the
  sequence; for a parameter sequence, the active entries in their order.
\<close>

definition spec_queryString :: "platform \<Rightarrow> jsval js_object \<Rightarrow> string" where
  "spec_queryString pf entries =
     join ''&'' (map (\<lambda>(key, v). key @ ''='' @ encodeURIComponent (serializeValue pf v))
                   (filter (\<lambda>(key, v). v \<noteq> JUndefined) entries))"

definition spec_activeEntries :: "param list \<Rightarrow> jsval js_object" where
  "spec_activeEntries params =
     map (\<lambda>p. (p_name p, JStr (p_value p))) (filter p_active params)"




subsection \<open>Measures and conditions\<close>

text \<open>The number of entries of a parameter list that carry a given name.\<close>

definition count_named :: "string \<Rightarrow> param list \<Rightarrow> nat" where
  "count_named n params = length (filter (\<lambda>p. p_name p = n) params)"


text \<open>
  The names a parameter sequence gives to its record are plain when those of the active
  entries with a name are pairwise different and none of them is \<^verbatim>\<open>__proto__\<close> or an array
  index.
\<close>

definition plain_names :: "param list \<Rightarrow> bool" where
  "plain_names params =
     (distinct (map p_name (filter (\<lambda>p. p_name p \<noteq> [] \<and> p_active p) params))
      \<and> list_all (\<lambda>p. p_name p \<noteq> [] \<and> p_active p
                        \<longrightarrow> p_name p \<noteq> ''__proto__'' \<and> \<not> is_array_index (p_name p)) params)"



text \<open>
  A reference to a form is well formed in a store when its two arrays exist and hold
  addresses of existing objects.
\<close>

definition well_formed :: "store \<Rightarrow> form_ref \<Rightarrow> bool" where
  "well_formed st data =
     (fr_queryParams data < length (arrs st) \<and> fr_headers data < length (arrs st)
      \<and> list_all (\<lambda>obj. obj < length (objs st)) (arrs st ! fr_queryParams data)
      \<and> list_all (\<lambda>obj. obj < length (objs st)) (arrs st ! fr_headers data))"

text \<open>
  One store extends another when it keeps every cell of it: the old objects and arrays
  are a prefix of the new ones.
\<close>

definition extends :: "store \<Rightarrow> store \<Rightarrow> bool" where
  "extends st0 st =
     (length (objs st0) \<le> length (objs st) \<and> take (length (objs st0)) (objs st) = objs st0
      \<and> length (arrs st0) \<le> length (arrs st) \<and> take (length (arrs st0)) (arrs st) = arrs st0)"

text \<open>An array of a store is valid when it exists and holds addresses of existing objects.\<close>

definition valid_array :: "store \<Rightarrow> nat \<Rightarrow> bool" where
  "valid_array st a =
     (a < length (arrs st) \<and> list_all (\<lambda>obj. obj < length (objs st)) (arrs st ! a))"

text \<open>
  A reference is valid when its two arrays are valid and different, as they are after the
  copy.
\<close>

definition valid_form :: "store \<Rightarrow> form_ref \<Rightarrow> bool" where
  "valid_form st sd =
     (valid_array st (fr_queryParams sd) \<and> valid_array st (fr_headers sd)
      \<and> fr_headers sd \<noteq> fr_queryParams sd)"

subsection \<open>Examples to run the definitions on\<close>

text \<open>
  A platform and collaborators to run examples on: \<^verbatim>\<open>Date.now()\<close> is 1700000000000, the
  parser knows two documents, \<^verbatim>\<open>createUrl\<close> appends the path to the server, the headers
  pass unchanged and the identity adds nothing.
\<close>

definition example_platform :: platform where
  "example_platform =
     \<lparr>Date_now = 1700000000000,
      JSON_parse = (\<lambda>t.
        if t = [CHR ''{'', CHR 0x22] @ ''side'' @ [CHR 0x22, CHR '':'', CHR 0x22] @ ''BUY''
               @ [CHR 0x22, CHR ''}'']
          then Some (JObj [(''side'', JStr ''BUY'')])
        else if t = ''[1]'' then Some (JArr [JNum ''1''])
        else None),
      JSON_stringify = (\<lambda>v. ''[1]''),
      Number_toString = (\<lambda>n. n)\<rparr>"

definition example_environment :: environment where
  "example_environment =
     \<lparr>createUrl = (\<lambda>server url signedData. Inr (server @ url)),
      new_Headers = (\<lambda>pairs. Inr pairs),
      authorizeRequest = (\<lambda>identity tmpReq. Inr (rq_headers tmpReq)),
      window_proxy_url = None,
      env_proxy_url = None\<rparr>"

definition example_props :: props where
  "example_props =
     \<lparr>pr_server = Some ''https://api.example.com'', pr_selectedServer = [],
      pr_url = ''/orders'', pr_method = ''POST'', pr_isSigned = True,
      pr_apiKeyHeaderName = ''X-MBX-APIKEY''\<rparr>"

definition example_form :: PlaygroundForm where
  "example_form =
     \<lparr>f_apiSecret = Some ''s3cr3t'', f_body = [], f_bodyMode = Some TextMode, f_file = None,
      f_multipartFormFields = [],
      f_queryParams =
        [\<lparr>p_name = ''symbol'', p_value = ''BTCUSDT'', p_active = True, p_enum = Some []\<rparr>],
      f_pathParams = [],
      f_headers =
        [\<lparr>p_name = ''X-MBX-APIKEY'', p_value = ''k3y'', p_active = True, p_enum = None\<rparr>],
      f_identity = Some ''__none''\<rparr>"


text \<open>A URL parser and a network to run the proxy on.\<close>

definition example_newURL :: "string \<Rightarrow> string option" where
  "example_newURL url =
     (if startsWith url ''https://'' then Some ''https:''
      else if startsWith url ''http://'' then Some ''http:''
      else None)"

definition example_upstream :: "fetch_call \<Rightarrow> error + upstream_response" where
  "example_upstream call =
     Inr \<lparr>up_status = 200, up_headers = [(''content-type'', ''application/json'')],
          up_text = ''{}'', up_content_type = Some ''application/json''\<rparr>"

text \<open>A store with the two arrays of \<open>example_form\<close>, and the reference to them.\<close>

definition example_store :: store where
  "example_store =
     \<lparr>objs =
        [\<lparr>p_name = ''symbol'', p_value = ''BTCUSDT'', p_active = True, p_enum = Some []\<rparr>,
         \<lparr>p_name = ''X-MBX-APIKEY'', p_value = ''k3y'', p_active = True, p_enum = None\<rparr>],
      arrs = [[0], [1]]\<rparr>"

definition example_ref :: form_ref where
  "example_ref =
     \<lparr>fr_apiSecret = Some ''s3cr3t'', fr_body = [], fr_bodyMode = Some TextMode, fr_file = None,
      fr_multipartFormFields = [], fr_queryParams = 0, fr_pathParams = [], fr_headers = 1,
      fr_identity = Some ''__none''\<rparr>"

section \<open>The upsert\<close>

lemma findIndex_from_eq:
  "findIndex_from P xs i =
     (if \<exists>x \<in> set xs. P x then i + int (length (takeWhile (\<lambda>x. \<not> P x) xs)) else - 1)"
  by (induction xs arbitrary: i) auto

lemma findIndex_eq:
  "findIndex P xs =
     (if \<exists>x \<in> set xs. P x then int (length (takeWhile (\<lambda>x. \<not> P x) xs)) else - 1)"
  by (simp add: findIndex_def findIndex_from_eq)

lemma first_match:
  assumes "\<exists>x \<in> set xs. P x"
  shows "length (takeWhile (\<lambda>x. \<not> P x) xs) < length xs"
    and "P (xs ! length (takeWhile (\<lambda>x. \<not> P x) xs))"
    and "\<forall>j < length (takeWhile (\<lambda>x. \<not> P x) xs). \<not> P (xs ! j)"
proof -
  show 1: "length (takeWhile (\<lambda>x. \<not> P x) xs) < length xs"
    using assms by (induction xs) auto
  show "P (xs ! length (takeWhile (\<lambda>x. \<not> P x) xs))"
    using nth_length_takeWhile [OF 1] by simp
  show "\<forall>j < length (takeWhile (\<lambda>x. \<not> P x) xs). \<not> P (xs ! j)"
    using takeWhile_nth nth_mem set_takeWhileD by metis
qed

lemma upsertActiveParam_found:
  assumes "\<exists>p \<in> set params. p_name p = n"
  shows "upsertActiveParam params n v =
           params[length (takeWhile (\<lambda>p. p_name p \<noteq> n) params) :=
                    (params ! length (takeWhile (\<lambda>p. p_name p \<noteq> n) params))
                      \<lparr>p_value := v, p_active := True\<rparr>]"
  using assms by (simp add: upsertActiveParam_def findIndex_eq)

lemma upsertActiveParam_missing:
  assumes "\<forall>p \<in> set params. p_name p \<noteq> n"
  shows "upsertActiveParam params n v =
           params @ [\<lparr>p_name = n, p_value = v, p_active = True, p_enum = Some []\<rparr>]"
  using assms by (simp add: upsertActiveParam_def findIndex_eq)

lemma upsertActiveParam_Cons:
  "upsertActiveParam (p # ps) n v =
     (if p_name p = n then p\<lparr>p_value := v, p_active := True\<rparr> # ps
      else p # upsertActiveParam ps n v)"
proof (cases "p_name p = n")
  case True
  then show ?thesis
    using upsertActiveParam_found [of "p # ps" n v] by simp
next
  case False
  show ?thesis
  proof (cases "\<exists>q \<in> set ps. p_name q = n")
    case True
    with False show ?thesis
      using upsertActiveParam_found [of "p # ps" n v] upsertActiveParam_found [of ps n v]
      by simp
  next
    case no: False
    with False show ?thesis
      using upsertActiveParam_missing [of "p # ps" n v] upsertActiveParam_missing [of ps n v]
      by simp
  qed
qed

lemma upsertActiveParam_Nil:
  "upsertActiveParam [] n v = [\<lparr>p_name = n, p_value = v, p_active = True, p_enum = Some []\<rparr>]"
  by (simp add: upsertActiveParam_def findIndex_eq)

lemma count_upsert:
  "length (filter (\<lambda>p. p_name p = n) (upsertActiveParam params n v)) =
     max 1 (length (filter (\<lambda>p. p_name p = n) params))"
  by (induction params) (auto simp: upsertActiveParam_Cons upsertActiveParam_Nil)

lemma find_upsert:
  "\<exists>p. find (\<lambda>p. p_name p = n) (upsertActiveParam params n v) = Some p
        \<and> p_name p = n \<and> p_value p = v \<and> p_active p"
  by (induction params) (auto simp: upsertActiveParam_Cons upsertActiveParam_Nil)

section \<open>Objects, header filtering and query strings\<close>

lemma set_insert_index: "set (insert_index k v obj) = insert (k, v) (set obj)"
  by (induction obj) (auto split: if_splits)

lemma distinct_insert_index:
  "k \<notin> fst ` set obj \<Longrightarrow> distinct (map fst obj) \<Longrightarrow> distinct (map fst (insert_index k v obj))"
proof (induction obj)
  case Nil
  then show ?case by simp
next
  case (Cons e obj)
  then show ?case
    by (cases e) (auto simp: set_insert_index)
qed

lemma map_of_insert_index:
  "k \<notin> fst ` set obj \<Longrightarrow>
   map_of (insert_index k v obj) x = (if x = k then Some v else map_of obj x)"
proof (induction obj)
  case Nil
  then show ?case by simp
next
  case (Cons e obj)
  obtain k' v' where e: "e = (k', v')" by (cases e)
  have ne: "k' \<noteq> k" and fresh: "k \<notin> fst ` set obj"
    using Cons.prems e by auto
  have IH: "map_of (insert_index k v obj) x = (if x = k then Some v else map_of obj x)"
    by (rule Cons.IH [OF fresh])
  show ?case
  proof (cases "is_array_index k' \<and> digits_value k' < digits_value k")
    case True
    then have "map_of (insert_index k v (e # obj)) x =
                 (if x = k' then Some v' else map_of (insert_index k v obj) x)"
      by (simp add: e)
    also have "\<dots> = (if x = k then Some v else map_of (e # obj) x)"
      unfolding IH using ne by (simp add: e)
    finally show ?thesis .
  next
    case False
    then have "insert_index k v (e # obj) = (k, v) # e # obj"
      by (auto simp: e)
    then show ?thesis
      using ne e by simp
  qed
qed

lemma map_of_replace:
  "map_of (map (\<lambda>(k', v'). if k' = k then (k', v) else (k', v')) obj) x =
     (if x = k \<and> k \<in> fst ` set obj then Some v else map_of obj x)"
proof (induction obj arbitrary: x)
  case Nil
  then show ?case by simp
next
  case (Cons e obj)
  obtain k' v' where e: "e = (k', v')" by (cases e)
  show ?case
    by (cases "k' = k") (simp_all add: e Cons.IH)
qed

lemma keys_replace:
  "map (fst \<circ> (\<lambda>(k', v'). if k' = k then (k', v) else (k', v'))) obj = map fst obj"
  by (induction obj) auto

lemma map_of_append_fresh:
  "k \<notin> fst ` set obj \<Longrightarrow>
   map_of (obj @ [(k, v)]) x = (if x = k then Some v else map_of obj x)"
  by (induction obj) auto

lemma map_of_obj_set:
  "map_of (obj_set obj k v) x =
     (if k = ''__proto__'' then map_of obj x else if x = k then Some v else map_of obj x)"
proof -
  consider "k = ''__proto__''" | "k \<noteq> ''__proto__''" "k \<in> fst ` set obj"
    | "k \<noteq> ''__proto__''" "k \<notin> fst ` set obj" "is_array_index k"
    | "k \<noteq> ''__proto__''" "k \<notin> fst ` set obj" "\<not> is_array_index k"
    by blast
  then show ?thesis
  proof cases
    case 1
    then show ?thesis by (simp add: obj_set_def)
  next
    case 2
    then show ?thesis by (simp add: obj_set_def map_of_replace)
  next
    case 3
    then show ?thesis by (simp add: obj_set_def map_of_insert_index)
  next
    case 4
    then show ?thesis
      using map_of_append_fresh [of k obj v x] by (simp add: obj_set_def)
  qed
qed

lemma distinct_obj_set:
  "distinct (map fst obj) \<Longrightarrow> distinct (map fst (obj_set obj k v))"
  unfolding obj_set_def
  by (simp add: distinct_insert_index keys_replace)

lemma obj_set_plain:
  "k \<noteq> ''__proto__'' \<Longrightarrow> \<not> is_array_index k \<Longrightarrow> k \<notin> fst ` set obj \<Longrightarrow>
   obj_set obj k v = obj @ [(k, v)]"
  by (simp add: obj_set_def)

lemma headersObj_loop_map_of:
  "map_of (headersObj_loop hs out) k =
     (if k = [] \<or> toLowerCase k \<in> set [''host'', ''connection'', ''content-length'']
         \<or> k = ''__proto__''
      then map_of out k
      else (case map_of (rev hs) k of Some v \<Rightarrow> Some v | None \<Rightarrow> map_of out k))"
proof -
  define hop where "hop = (\<lambda>k. toLowerCase k \<in> set [''host'', ''connection'', ''content-length''])"
  have step: "headersObj_loop ((k', v') # hs') out' =
        (if k' = [] then headersObj_loop hs' out'
         else if hop k' then headersObj_loop hs' out'
         else headersObj_loop hs' (obj_set out' k' v'))" for k' v' hs' out'
    unfolding hop_def by (rule headersObj_loop.simps)
  have "map_of (headersObj_loop hs out) k =
     (if k = [] \<or> hop k \<or> k = ''__proto__'' then map_of out k
      else (case map_of (rev hs) k of Some v \<Rightarrow> Some v | None \<Rightarrow> map_of out k))"
  proof (induction hs arbitrary: out k)
    case Nil
    then show ?case by simp
  next
    case (Cons h hs)
    obtain k' v' where h: "h = (k', v')" by (cases h)
    show ?case
      unfolding h step
      by (auto simp: Cons.IH map_of_obj_set map_add_def split: option.splits)
  qed
  then show ?thesis unfolding hop_def .
qed

lemma headersObj_loop_distinct:
  "distinct (map fst out) \<Longrightarrow> distinct (map fst (headersObj_loop hs out))"
proof (induction hs arbitrary: out)
  case Nil
  then show ?case by simp
next
  case (Cons h hs)
  obtain k' v' where h: "h = (k', v')" by (cases h)
  show ?case
    unfolding h headersObj_loop.simps
    using Cons.prems by (simp add: Cons.IH distinct_obj_set del: set_simps)
qed

lemma buildQueryString_pairs_eq:
  "buildQueryString_pairs pf es pairs =
     pairs @ map (\<lambda>(key, v). key @ ''='' @ encodeURIComponent (serializeValue pf v))
               (filter (\<lambda>(key, v). v \<noteq> JNull \<and> v \<noteq> JUndefined) es)"
  by (induction es arbitrary: pairs) auto

lemma toRecord_loop_plain:
  assumes "distinct (map p_name (filter (\<lambda>p. p_name p \<noteq> [] \<and> p_active p) ps))"
    and "\<forall>p \<in> set ps. p_name p \<noteq> [] \<and> p_active p \<longrightarrow>
           p_name p \<noteq> ''__proto__'' \<and> \<not> is_array_index (p_name p) \<and> p_name p \<notin> fst ` set out"
  shows "toRecordFromActivePairs_loop ps out =
           out @ map (\<lambda>p. (p_name p, JStr (p_value p)))
                   (filter (\<lambda>p. p_name p \<noteq> [] \<and> p_active p) ps)"
  using assms
proof (induction ps arbitrary: out)
  case Nil
  then show ?case by simp
next
  case (Cons p ps)
  show ?case
  proof (cases "p_name p \<noteq> [] \<and> p_active p")
    case False
    then show ?thesis using Cons by auto
  next
    case True
    have step: "obj_set out (p_name p) (JStr (p_value p)) = out @ [(p_name p, JStr (p_value p))]"
      using True Cons.prems(2) by (intro obj_set_plain) auto
    have fresh: "p_name p \<notin> p_name ` set (filter (\<lambda>p. p_name p \<noteq> [] \<and> p_active p) ps)"
      using Cons.prems(1) True by simp
    have "toRecordFromActivePairs_loop ps (out @ [(p_name p, JStr (p_value p))]) =
            (out @ [(p_name p, JStr (p_value p))]) @
            map (\<lambda>p. (p_name p, JStr (p_value p))) (filter (\<lambda>p. p_name p \<noteq> [] \<and> p_active p) ps)"
    proof (rule Cons.IH)
      show "distinct (map p_name (filter (\<lambda>p. p_name p \<noteq> [] \<and> p_active p) ps))"
        using Cons.prems(1) True by simp
      show "\<forall>q\<in>set ps. p_name q \<noteq> [] \<and> p_active q \<longrightarrow>
              p_name q \<noteq> ''__proto__'' \<and> \<not> is_array_index (p_name q) \<and>
              p_name q \<notin> fst ` set (out @ [(p_name p, JStr (p_value p))])"
      proof (intro ballI impI)
        fix q assume q: "q \<in> set ps" "p_name q \<noteq> [] \<and> p_active q"
        then have "q \<in> set (filter (\<lambda>p. p_name p \<noteq> [] \<and> p_active p) ps)" by simp
        then have "p_name q \<noteq> p_name p" using fresh by (metis imageI)
        moreover have "p_name q \<noteq> ''__proto__'' \<and> \<not> is_array_index (p_name q) \<and>
              p_name q \<notin> fst ` set out"
          using Cons.prems(2) q by simp
        ultimately show "p_name q \<noteq> ''__proto__'' \<and> \<not> is_array_index (p_name q) \<and>
              p_name q \<notin> fst ` set (out @ [(p_name p, JStr (p_value p))])"
          by simp
      qed
    qed
    then show ?thesis using True step by simp
  qed
qed

lemma headersObj_map_of:
  "map_of (headersObj payload) k =
     (if k = [] \<or> toLowerCase k \<in> set [''host'', ''connection'', ''content-length'']
         \<or> k = ''__proto__''
      then None
      else map_of (rev (case pb_headers payload of None \<Rightarrow> [] | Some hs \<Rightarrow> hs)) k)"
  unfolding headersObj_def headersObj_loop_map_of
  by (simp split: option.splits)

lemma headersObj_distinct: "distinct (map fst (headersObj payload))"
  unfolding headersObj_def by (rule headersObj_loop_distinct) simp

lemma headersObj_plain:
  assumes d: "distinct (map fst hs)"
    and ne: "[] \<notin> fst ` set hs" and np: "''__proto__'' \<notin> fst ` set hs"
    and p: "pb_headers payload = Some hs"
  shows "set (headersObj payload) = set (spec_forwarded_headers hs)"
proof (rule set_eqI)
  fix e :: "string \<times> string"
  obtain k v where e: "e = (k, v)" by (cases e)
  have drev: "distinct (map fst (rev hs))"
    using d by (simp add: rev_map [symmetric])
  have "e \<in> set (headersObj payload) \<longleftrightarrow> map_of (headersObj payload) k = Some v"
    unfolding e using headersObj_distinct by simp
  also have "\<dots> \<longleftrightarrow>
      \<not> (k = [] \<or> toLowerCase k \<in> set [''host'', ''connection'', ''content-length'']
          \<or> k = ''__proto__'') \<and> map_of (rev hs) k = Some v"
    unfolding headersObj_map_of p by simp
  also have "\<dots> \<longleftrightarrow>
      \<not> (k = [] \<or> toLowerCase k \<in> set [''host'', ''connection'', ''content-length'']
          \<or> k = ''__proto__'') \<and> (k, v) \<in> set hs"
    using map_of_eq_Some_iff [OF drev, of k v] by simp
  also have "\<dots> \<longleftrightarrow> (k, v) \<in> set hs
        \<and> toLowerCase k \<notin> set [''host'', ''connection'', ''content-length'']"
    using ne np by (force simp del: set_simps)
  also have "\<dots> \<longleftrightarrow> e \<in> set (spec_forwarded_headers hs)"
    unfolding e spec_forwarded_headers_def by (simp del: set_simps)
  finally show "e \<in> set (headersObj payload) \<longleftrightarrow> e \<in> set (spec_forwarded_headers hs)" .
qed

lemma buildQueryString_eq:
  "buildQueryString pf params =
     join ''&'' (map (\<lambda>(key, v). key @ ''='' @ encodeURIComponent (serializeValue pf v))
                   (filter (\<lambda>(key, v). v \<noteq> JNull \<and> v \<noteq> JUndefined) params))"
  by (simp add: buildQueryString_def buildQueryString_pairs_eq)

lemma toRecordFromActivePairs_plain:
  assumes "plain_names params"
  shows "toRecordFromActivePairs params =
           map (\<lambda>p. (p_name p, JStr (p_value p)))
             (filter (\<lambda>p. p_name p \<noteq> [] \<and> p_active p) params)"
proof -
  have "toRecordFromActivePairs_loop params [] =
          [] @ map (\<lambda>p. (p_name p, JStr (p_value p)))
                 (filter (\<lambda>p. p_name p \<noteq> [] \<and> p_active p) params)"
    using assms unfolding plain_names_def list_all_iff
    by (intro toRecord_loop_plain) auto
  then show ?thesis by (simp add: toRecordFromActivePairs_def)
qed

lemma buildQueryString_strings:
  "buildQueryString pf (map (\<lambda>p. (p_name p, JStr (p_value p))) ps) =
     join ''&'' (map (\<lambda>p. p_name p @ ''='' @ encodeURIComponent (p_value p)) ps)"
  by (simp add: buildQueryString_eq filter_map o_def)

section \<open>Signing preconditions and the body of the request\<close>

lemma getHeaderValue_empty:
  assumes "\<forall>h \<in> set headers. p_name h = n \<and> p_active h \<longrightarrow> trim (p_value h) = []"
  shows "getHeaderValue headers n = []"
proof (cases "find (\<lambda>x. p_name x = n) headers")
  case None
  then show ?thesis by (simp add: getHeaderValue_def)
next
  case (Some h)
  then have "h \<in> set headers" "p_name h = n"
    by (auto simp: find_Some_iff)
  with assms Some show ?thesis
    by (auto simp: getHeaderValue_def)
qed

lemma signRequest_no_secret:
  "trim (case f_apiSecret data of None \<Rightarrow> [] | Some s \<Rightarrow> s) = [] \<Longrightarrow>
   signRequest pf n data = Inl (Error ''API Secret is required for signed endpoints.'')"
  by (simp add: signRequest_def)

lemma signRequest_no_key:
  "trim (case f_apiSecret data of None \<Rightarrow> [] | Some s \<Rightarrow> s) \<noteq> [] \<Longrightarrow>
   getHeaderValue (f_headers data) n = [] \<Longrightarrow>
   signRequest pf n data =
     Inl (Error (''Missing '' @ n @ '' header. Enable it in Headers and provide your API key.''))"
  by (simp add: signRequest_def)


lemma mutationFn_sign_failure:
  "pr_isSigned pr \<Longrightarrow> signRequest pf (pr_apiKeyHeaderName pr) data = Inl e \<Longrightarrow>
   mutationFn pf env pr data = ([], Inl e)"
  by (simp add: mutationFn_def)

lemma upstream_call_GET:
  "pb_method payload = Some m \<Longrightarrow> toUpperCase m \<in> set [''GET'', ''HEAD''] \<Longrightarrow>
   fc_body (upstream_call payload) = None"
  by (simp add: upstream_call_def Let_def)

lemma proxy_post_calls:
  "c \<in> set (fst (proxy_post newURL upstream origin readJson)) \<Longrightarrow>
   \<exists>payload. readJson = Inr payload \<and> c = upstream_call payload"
  by (auto simp: proxy_post_def proxy_checked_def proxy_forward_def
      split: sum.splits option.splits if_splits)





section \<open>The store: what the submission writes\<close>

lemma extends_new_array: "extends st0 st \<Longrightarrow> extends st0 (fst (new_array st elems))"
  by (simp add: extends_def new_array_def)

lemma extends_upsert:
  assumes "extends st0 st" and "length (arrs st0) \<le> a"
  shows "extends st0 (upsertActiveParam_at st a n v)"
  using assms
  by (simp add: extends_def upsertActiveParam_at_def new_object_def Let_def)

lemma copyForm_fresh:
  assumes "copyForm st data = (st', signedData)"
  shows "extends st st'" and "fr_queryParams signedData = length (arrs st)"
    and "fr_headers signedData = Suc (length (arrs st))"
    and "length (arrs st') = Suc (Suc (length (arrs st)))"
  using assms
  by (auto simp: copyForm_def new_array_def extends_def Let_def)

lemma extends_signRequest_at:
  assumes "extends st0 st" and "length (arrs st0) \<le> fr_queryParams signedData"
  shows "extends st0 (fst (signRequest_at pf n st signedData))"
proof -
  let ?st1 = "upsertActiveParam_at st (fr_queryParams signedData) ''timestamp''
                (String_int (Date_now pf))"
  have 1: "extends st0 ?st1" using assms by (rule extends_upsert)
  have 2: "extends st0 (fst (new_array ?st1 elems))" for elems
    using 1 by (rule extends_new_array)
  have 3: "extends st0 (upsertActiveParam_at (fst (new_array ?st1 elems))
                          (fr_queryParams signedData) ''signature'' sig)" for elems sig
    using 2 assms(2) by (rule extends_upsert)
  show ?thesis
    using assms(1) 3
    by (simp add: signRequest_at_def Let_def split_beta)
qed

lemma extends_mutationFn_at: "extends st (fst (mutationFn_at pf pr st data))"
proof -
  obtain st1 signedData where c: "copyForm st data = (st1, signedData)"
    by (cases "copyForm st data")
  note f = copyForm_fresh [OF c]
  have "extends st (fst (signRequest_at pf (pr_apiKeyHeaderName pr) st1 signedData))"
    using f(1) by (rule extends_signRequest_at) (simp add: f(2))
  then show ?thesis
    using f(1) by (simp add: mutationFn_at_def c)
qed

lemma upsert_at_array:
  assumes "valid_array st a"
  shows "array_at (upsertActiveParam_at st a n v) a = upsertActiveParam (array_at st a) n v"
proof -
  let ?params = "arrs st ! a"
  let ?P = "\<lambda>obj. p_name (objs st ! obj) = n"
  let ?new = "\<lparr>p_name = n, p_value = v, p_active = True, p_enum = Some []\<rparr>"
  have a: "a < length (arrs st)" and v: "\<forall>obj \<in> set ?params. obj < length (objs st)"
    using assms by (auto simp: valid_array_def list_all_iff)
  have old: "map (\<lambda>obj. (objs st @ [p]) ! obj) ?params = map (\<lambda>obj. objs st ! obj) ?params" for p
    using v by (simp add: nth_append)
  show ?thesis
  proof (cases "\<exists>obj \<in> set ?params. ?P obj")
    case False
    then have neg: "findIndex ?P ?params = - 1" by (simp add: findIndex_eq)
    have st': "upsertActiveParam_at st a n v =
                 st\<lparr>objs := objs st @ [?new], arrs := (arrs st)[a := ?params @ [length (objs st)]]\<rparr>"
      by (simp add: upsertActiveParam_at_def neg new_object_def Let_def)
    have "array_at (upsertActiveParam_at st a n v) a
            = map (\<lambda>obj. (objs st @ [?new]) ! obj) ?params @ [?new]"
      unfolding st' array_at_def using a by simp
    also have "\<dots> = array_at st a @ [?new]"
      unfolding old array_at_def ..
    also have "\<dots> = upsertActiveParam (array_at st a) n v"
      using False by (intro upsertActiveParam_missing [symmetric]) (simp add: array_at_def)
    finally show ?thesis .
  next
    case True
    let ?i = "length (takeWhile (\<lambda>obj. \<not> ?P obj) ?params)"
    let ?upd = "(objs st ! (?params ! ?i))\<lparr>p_value := v, p_active := True\<rparr>"
    have pos: "findIndex ?P ?params = int ?i" using True by (simp add: findIndex_eq)
    have i: "?i < length ?params"
      using first_match(1) [of ?params ?P] True by simp
    have st': "upsertActiveParam_at st a n v =
                 st\<lparr>objs := objs st @ [?upd], arrs := (arrs st)[a := ?params[?i := length (objs st)]]\<rparr>"
      by (simp add: upsertActiveParam_at_def pos new_object_def Let_def)
    have "array_at (upsertActiveParam_at st a n v) a
            = map (\<lambda>obj. (objs st @ [?upd]) ! obj) (?params[?i := length (objs st)])"
      unfolding st' array_at_def using a by simp
    also have "\<dots> = (map (\<lambda>obj. (objs st @ [?upd]) ! obj) ?params)[?i := ?upd]"
      by (simp add: map_update)
    also have "\<dots> = (array_at st a)[?i := ?upd]"
      unfolding old array_at_def ..
    also have "\<dots> = upsertActiveParam (array_at st a) n v"
    proof -
      have ex: "\<exists>p \<in> set (array_at st a). p_name p = n"
        using True by (simp add: array_at_def)
      have tw: "length (takeWhile (\<lambda>p. p_name p \<noteq> n) (array_at st a)) = ?i"
        by (simp add: array_at_def takeWhile_map o_def)
      have nth: "array_at st a ! ?i = objs st ! (?params ! ?i)"
        using i by (simp add: array_at_def)
      show ?thesis
        unfolding upsertActiveParam_found [OF ex] tw nth ..
    qed
    finally show ?thesis .
  qed
qed

lemma upsert_at_valid:
  assumes "valid_array st a"
  shows "valid_array (upsertActiveParam_at st a n v) a"
proof -
  let ?params = "arrs st ! a"
  have a: "a < length (arrs st)" and v: "\<forall>obj \<in> set ?params. obj < length (objs st)"
    using assms by (auto simp: valid_array_def list_all_iff)
  have "\<forall>obj \<in> set (?params[i := length (objs st)]). obj < Suc (length (objs st))" for i
    using v by (auto dest!: set_update_subset_insert [THEN subsetD])
  moreover have "\<forall>obj \<in> set ?params. obj < Suc (length (objs st))"
    using v by auto
  ultimately show ?thesis
    using a
    by (simp add: valid_array_def list_all_iff upsertActiveParam_at_def new_object_def Let_def)
qed

lemma upsert_at_other:
  assumes "valid_array st b" and "b \<noteq> a"
  shows "array_at (upsertActiveParam_at st a n v) b = array_at st b"
    and "valid_array (upsertActiveParam_at st a n v) b"
proof -
  have b: "b < length (arrs st)" and v: "\<forall>obj \<in> set (arrs st ! b). obj < length (objs st)"
    using assms by (auto simp: valid_array_def list_all_iff)
  have old: "map (\<lambda>obj. (objs st @ [p]) ! obj) (arrs st ! b) = map (\<lambda>obj. objs st ! obj) (arrs st ! b)" for p
    using v by (simp add: nth_append)
  show "array_at (upsertActiveParam_at st a n v) b = array_at st b"
    using assms(2) old
    by (simp add: upsertActiveParam_at_def new_object_def Let_def array_at_def)
  have "\<forall>obj \<in> set (arrs st ! b). obj < Suc (length (objs st))"
    using v by auto
  then show "valid_array (upsertActiveParam_at st a n v) b"
    using assms(2) b
    by (simp add: upsertActiveParam_at_def new_object_def Let_def valid_array_def list_all_iff)
qed

lemma new_array_other:
  assumes "valid_array st b"
  shows "array_at (fst (new_array st elems)) b = array_at st b"
    and "valid_array (fst (new_array st elems)) b"
  using assms
  by (simp_all add: new_array_def array_at_def valid_array_def nth_append)

lemma deref_upsert:
  assumes "valid_form st sd"
  shows "deref (upsertActiveParam_at st (fr_queryParams sd) n v) sd
           = (deref st sd)\<lparr>f_queryParams := upsertActiveParam (f_queryParams (deref st sd)) n v\<rparr>"
    and "valid_form (upsertActiveParam_at st (fr_queryParams sd) n v) sd"
proof -
  have q: "valid_array st (fr_queryParams sd)" and h: "valid_array st (fr_headers sd)"
    and ne: "fr_headers sd \<noteq> fr_queryParams sd"
    using assms by (simp_all add: valid_form_def)
  show "deref (upsertActiveParam_at st (fr_queryParams sd) n v) sd
           = (deref st sd)\<lparr>f_queryParams := upsertActiveParam (f_queryParams (deref st sd)) n v\<rparr>"
    by (simp add: deref_def upsert_at_array [OF q] upsert_at_other(1) [OF h ne])
  show "valid_form (upsertActiveParam_at st (fr_queryParams sd) n v) sd"
    using upsert_at_valid [OF q] upsert_at_other(2) [OF h ne] ne
    by (simp add: valid_form_def)
qed

lemma deref_new_array:
  assumes "valid_form st sd"
  shows "deref (fst (new_array st elems)) sd = deref st sd"
    and "valid_form (fst (new_array st elems)) sd"
proof -
  have q: "valid_array st (fr_queryParams sd)" and h: "valid_array st (fr_headers sd)"
    and ne: "fr_headers sd \<noteq> fr_queryParams sd"
    using assms by (simp_all add: valid_form_def)
  show "deref (fst (new_array st elems)) sd = deref st sd"
    by (simp add: deref_def new_array_other(1) [OF q] new_array_other(1) [OF h])
  show "valid_form (fst (new_array st elems)) sd"
    using new_array_other(2) [OF q] new_array_other(2) [OF h] ne
    by (simp add: valid_form_def)
qed

lemma signRequest_at_refines:
  assumes "valid_form st sd"
  shows "map_sum id (deref (fst (signRequest_at pf n st sd))) (snd (signRequest_at pf n st sd))
           = signRequest pf n (deref st sd)"
proof -
  define secret where "secret = trim (case fr_apiSecret sd of None \<Rightarrow> [] | Some s \<Rightarrow> s)"
  define st1 where "st1 = upsertActiveParam_at st (fr_queryParams sd) ''timestamp''
                            (String_int (Date_now pf))"
  define st2 where "st2 = fst (new_array st1
                      (filter (\<lambda>obj. p_name (objs st1 ! obj) \<noteq> ''signature'')
                         (arrs st1 ! fr_queryParams sd)))"
  define sig where "sig = hmacSha256Hex secret (toSign pf (deref st2 sd))"
  define st3 where "st3 = upsertActiveParam_at st2 (fr_queryParams sd) ''signature'' sig"
  have sec: "trim (case f_apiSecret (deref st sd) of None \<Rightarrow> [] | Some s \<Rightarrow> s) = secret"
    and hdr: "f_headers (deref st sd) = array_at st (fr_headers sd)"
    by (simp_all add: deref_def secret_def)
  have d1: "deref st1 sd = withTimestamp pf (deref st sd)" and v1: "valid_form st1 sd"
    unfolding st1_def withTimestamp_def using deref_upsert [OF assms] by simp_all
  have d2: "deref st2 sd = withTimestamp pf (deref st sd)" and v2: "valid_form st2 sd"
    unfolding st2_def using deref_new_array [OF v1] d1 by simp_all
  have d3: "deref st3 sd = withSignature sig (withTimestamp pf (deref st sd))"
    unfolding st3_def withSignature_def using deref_upsert(1) [OF v2] d2 by simp
  show ?thesis
  proof (cases "secret = []")
    case True
    then show ?thesis
      using sec by (simp add: signRequest_at_def signRequest_def secret_def)
  next
    case False
    show ?thesis
    proof (cases "getHeaderValue (array_at st (fr_headers sd)) n = []")
      case True
      with False show ?thesis
        using sec by (simp add: signRequest_at_def signRequest_def secret_def hdr)
    next
      case key: False
      have "signRequest_at pf n st sd = (st3, Inr sd)"
        using False key
        unfolding st3_def sig_def st2_def st1_def secret_def
        by (simp add: signRequest_at_def Let_def new_array_def)
      moreover have "signRequest pf n (deref st sd)
                       = Inr (withSignature sig (withTimestamp pf (deref st sd)))"
        using False key unfolding sig_def d2
        by (simp add: signRequest_def Let_def sec hdr)
      ultimately show ?thesis by (simp add: d3)
    qed
  qed
qed

lemma copyForm_deref:
  assumes "well_formed st data" and "copyForm st data = (st1, sd)"
  shows "deref st1 sd = deref st data" and "valid_form st1 sd"
  using assms
  by (auto simp: copyForm_def new_array_def Let_def deref_def array_at_def valid_array_def
        valid_form_def well_formed_def nth_append)

text \<open>
  The store model and the value model agree: what \<^verbatim>\<open>mutationFn\<close> leaves at the copy in
  the store is the signed form the value model computes.
\<close>

lemma mutationFn_at_refines:
  assumes "well_formed st data"
  shows "map_sum id (deref (fst (mutationFn_at pf pr st data))) (snd (mutationFn_at pf pr st data))
           = (if pr_isSigned pr then signRequest pf (pr_apiKeyHeaderName pr) (deref st data)
              else Inr (deref st data))"
proof -
  obtain st1 sd where c: "copyForm st data = (st1, sd)"
    by (cases "copyForm st data")
  note f = copyForm_deref [OF assms c]
  show ?thesis
    using signRequest_at_refines [OF f(2), of pf "pr_apiKeyHeaderName pr"]
    by (simp add: mutationFn_at_def c f(1))
qed

lemma extends_deref:
  assumes "extends st st'" and "well_formed st data"
  shows "deref st' data = deref st data"
proof -
  have a: "fr_queryParams data < length (arrs st)" "fr_headers data < length (arrs st)"
    and vq: "\<forall>obj \<in> set (arrs st ! fr_queryParams data). obj < length (objs st)"
    and vh: "\<forall>obj \<in> set (arrs st ! fr_headers data). obj < length (objs st)"
    using assms(2) by (auto simp: well_formed_def list_all_iff)
  have arr: "arrs st' ! i = arrs st ! i" if "i < length (arrs st)" for i
    using assms(1) that unfolding extends_def by (metis nth_take)
  have obj: "objs st' ! i = objs st ! i" if "i < length (objs st)" for i
    using assms(1) that unfolding extends_def by (metis nth_take)
  show ?thesis
    using a vq vh by (simp add: deref_def array_at_def arr obj)
qed

section \<open>The signed string\<close>






text \<open>
  The model of HMAC-SHA256 on a published vector (RFC 4231, test case 2) and on the two
  messages of the examples below.
\<close>

lemma hmac_rfc4231_case2:
  "hmacSha256Hex ''Jefe'' ''what do ya want for nothing?''
     = ''5bdcc146bf60754e6a042426089575c75a003f089d2739839dec58b964ec3843''"
  by code_simp



section \<open>Claims about the upsert\<close>

text \<open>
  Claim C10. When the list has an entry with the upserted name, \<^verbatim>\<open>upsertActiveParam\<close>
  replaces the first such entry in place: the list keeps its length, every other position is
  untouched, the entry keeps its name and its \<^verbatim>\<open>enum\<close>, takes the new value and becomes
  active whatever it was before. Only when no entry has the name is a new active entry
  appended at the end. So an inactive \<^verbatim>\<open>timestamp\<close> parameter of the user is re-activated
  where it stands, not appended last.
\<close>

theorem upsertActiveParam_first_match:
  "((\<exists>p \<in> set params. p_name p = n) \<longrightarrow>
      (let i = length (takeWhile (\<lambda>p. p_name p \<noteq> n) params) in
         i < length params \<and> p_name (params ! i) = n \<and> (\<forall>j < i. p_name (params ! j) \<noteq> n)
         \<and> upsertActiveParam params n v =
             params[i := (params ! i)\<lparr>p_value := v, p_active := True\<rparr>]))
   \<and> ((\<forall>p \<in> set params. p_name p \<noteq> n) \<longrightarrow>
        upsertActiveParam params n v =
          params @ [\<lparr>p_name = n, p_value = v, p_active = True, p_enum = Some []\<rparr>])"
proof (intro conjI impI)
  assume found: "\<exists>p \<in> set params. p_name p = n"
  have "\<exists>p \<in> set params. (\<lambda>p. p_name p = n) p" using found by simp
  from first_match [OF this] upsertActiveParam_found [OF found]
  show "let i = length (takeWhile (\<lambda>p. p_name p \<noteq> n) params) in
         i < length params \<and> p_name (params ! i) = n \<and> (\<forall>j < i. p_name (params ! j) \<noteq> n)
         \<and> upsertActiveParam params n v =
             params[i := (params ! i)\<lparr>p_value := v, p_active := True\<rparr>]"
    by (simp add: Let_def)
next
  assume "\<forall>p \<in> set params. p_name p \<noteq> n"
  then show "upsertActiveParam params n v =
          params @ [\<lparr>p_name = n, p_value = v, p_active = True, p_enum = Some []\<rparr>]"
    by (rule upsertActiveParam_missing)
qed

theorem upsertActiveParam_first_match_witness:
  "upsertActiveParam
     [\<lparr>p_name = ''symbol'', p_value = ''BTCUSDT'', p_active = True, p_enum = Some []\<rparr>,
      \<lparr>p_name = ''timestamp'', p_value = ''1'', p_active = False, p_enum = None\<rparr>,
      \<lparr>p_name = ''limit'', p_value = ''5'', p_active = True, p_enum = None\<rparr>]
     ''timestamp'' ''1700000000000'' =
     [\<lparr>p_name = ''symbol'', p_value = ''BTCUSDT'', p_active = True, p_enum = Some []\<rparr>,
      \<lparr>p_name = ''timestamp'', p_value = ''1700000000000'', p_active = True, p_enum = None\<rparr>,
      \<lparr>p_name = ''limit'', p_value = ''5'', p_active = True, p_enum = None\<rparr>]
   \<and> upsertActiveParam
     [\<lparr>p_name = ''symbol'', p_value = ''BTCUSDT'', p_active = True, p_enum = Some []\<rparr>]
     ''timestamp'' ''1700000000000'' =
     [\<lparr>p_name = ''symbol'', p_value = ''BTCUSDT'', p_active = True, p_enum = Some []\<rparr>,
      \<lparr>p_name = ''timestamp'', p_value = ''1700000000000'', p_active = True, p_enum = Some []\<rparr>]"
  using upsertActiveParam_first_match
          [of "[\<lparr>p_name = ''symbol'', p_value = ''BTCUSDT'', p_active = True, p_enum = Some []\<rparr>,
      \<lparr>p_name = ''timestamp'', p_value = ''1'', p_active = False, p_enum = None\<rparr>,
      \<lparr>p_name = ''limit'', p_value = ''5'', p_active = True, p_enum = None\<rparr>]"
              "''timestamp''" "''1700000000000''"]
        upsertActiveParam_first_match
          [of "[\<lparr>p_name = ''symbol'', p_value = ''BTCUSDT'', p_active = True, p_enum = Some []\<rparr>]"
              "''timestamp''" "''1700000000000''"]
  by (simp add: Let_def)

text \<open>
  Claim C6, as stated, fails: with two \<^verbatim>\<open>signature\<close> entries in the list, the upsert
  rewrites the first one and two remain.
\<close>

theorem upsert_signature_twice_counterexample:
  "count_named ''signature''
     (upsertActiveParam
        [\<lparr>p_name = ''signature'', p_value = ''a'', p_active = True, p_enum = None\<rparr>,
         \<lparr>p_name = ''signature'', p_value = ''b'', p_active = False, p_enum = None\<rparr>]
        ''signature'' ''c'') = 2"
  by (simp add: count_named_def upsertActiveParam_Cons)

text \<open>
  Claim C6, amended. After upserting \<^verbatim>\<open>signature\<close> the list has at least one
  \<^verbatim>\<open>signature\<close> entry: exactly one when it had at most one before, and as many as before
  otherwise. The first of them is active and carries the new value.
\<close>

theorem upsert_signature_count:
  "count_named ''signature'' (upsertActiveParam params ''signature'' v) =
     max 1 (count_named ''signature'' params)
   \<and> (\<exists>p. find (\<lambda>p. p_name p = ''signature'') (upsertActiveParam params ''signature'' v) = Some p
          \<and> p_value p = v \<and> p_active p)"
  using count_upsert [of "''signature''" params v] find_upsert [of "''signature''" params v]
  unfolding count_named_def by blast

theorem upsert_signature_count_witness:
  "count_named ''signature''
     (upsertActiveParam
        [\<lparr>p_name = ''symbol'', p_value = ''BTCUSDT'', p_active = True, p_enum = None\<rparr>,
         \<lparr>p_name = ''signature'', p_value = ''old'', p_active = False, p_enum = None\<rparr>]
        ''signature'' ''c'') = 1"
  using upsert_signature_count
     [of "[\<lparr>p_name = ''symbol'', p_value = ''BTCUSDT'', p_active = True, p_enum = None\<rparr>,
         \<lparr>p_name = ''signature'', p_value = ''old'', p_active = False, p_enum = None\<rparr>]" "''c''"]
  by (simp add: count_named_def)

section \<open>Claims about the forwarded headers and the query string\<close>

text \<open>
  Claim C3, as stated, fails: a header with an empty name is dropped although it is none of
  the three names, and of two headers with the same name only the second value is
  forwarded. The specification's reading keeps all three entries of this list.
\<close>

theorem forwarded_headers_counterexample:
  "headersObj \<lparr>pb_method = Some ''POST'', pb_url = Some ''https://api.example.com/orders'',
               pb_headers = Some [([], ''x''), (''X-A'', ''1''), (''X-A'', ''2'')],
               pb_body = None\<rparr> = [(''X-A'', ''2'')]
   \<and> spec_forwarded_headers [([], ''x''), (''X-A'', ''1''), (''X-A'', ''2'')]
       = [([], ''x''), (''X-A'', ''1''), (''X-A'', ''2'')]"
  by code_simp

text \<open>
  Claim C3, amended. The forwarded headers have pairwise different names. A name is
  forwarded exactly when it is supplied, is not empty, is not \<^verbatim>\<open>__proto__\<close> and is not
  \<^verbatim>\<open>host\<close>, \<^verbatim>\<open>connection\<close> or \<^verbatim>\<open>content-length\<close> in any letter case; it is forwarded unchanged,
  with the value of its last occurrence. When the supplied names are pairwise different,
  none empty and none \<^verbatim>\<open>__proto__\<close>, the forwarded set is the supplied list without the three
  names, as the specification says.
\<close>

theorem forwarded_headers:
  "distinct (map fst (headersObj payload))
   \<and> map_of (headersObj payload) k =
       (if k = [] \<or> toLowerCase k \<in> set [''host'', ''connection'', ''content-length'']
           \<or> k = ''__proto__''
        then None
        else map_of (rev (case pb_headers payload of None \<Rightarrow> [] | Some hs \<Rightarrow> hs)) k)
   \<and> (pb_headers payload = Some hs \<and> distinct (map fst hs)
        \<and> [] \<notin> fst ` set hs \<and> ''__proto__'' \<notin> fst ` set hs
      \<longrightarrow> set (headersObj payload) = set (spec_forwarded_headers hs))"
  using headersObj_distinct [of payload] headersObj_map_of [of payload k]
    headersObj_plain [of hs payload]
  by blast

theorem forwarded_headers_witness:
  "set (headersObj \<lparr>pb_method = Some ''POST'', pb_url = Some ''https://api.example.com/orders'',
          pb_headers = Some [(''Host'', ''evil.example''), (''X-MBX-APIKEY'', ''k3y''),
                             (''CONTENT-LENGTH'', ''0''), (''accept'', ''*/*'')],
          pb_body = None\<rparr>)
   = {(''X-MBX-APIKEY'', ''k3y''), (''accept'', ''*/*'')}"
proof -
  have kept: "spec_forwarded_headers
                [(''Host'', ''evil.example''), (''X-MBX-APIKEY'', ''k3y''),
                 (''CONTENT-LENGTH'', ''0''), (''accept'', ''*/*'')]
              = [(''X-MBX-APIKEY'', ''k3y''), (''accept'', ''*/*'')]"
    by code_simp
  show ?thesis
    using forwarded_headers
      [of "\<lparr>pb_method = Some ''POST'', pb_url = Some ''https://api.example.com/orders'',
            pb_headers = Some [(''Host'', ''evil.example''), (''X-MBX-APIKEY'', ''k3y''),
                               (''CONTENT-LENGTH'', ''0''), (''accept'', ''*/*'')],
            pb_body = None\<rparr>" "''accept''"
          "[(''Host'', ''evil.example''), (''X-MBX-APIKEY'', ''k3y''),
            (''CONTENT-LENGTH'', ''0''), (''accept'', ''*/*'')]"]
    by (simp add: kept)
qed

text \<open>
  Claim C5, as stated, fails: the record keeps one entry for a repeated name, and a name that
  is an array index is enumerated before the others; the specification's reading gives
  \<^verbatim>\<open>b=x&1=y&b=z\<close> for this sequence. And an entry whose value is \<^verbatim>\<open>null\<close> is left out although
  its value is not \<^verbatim>\<open>undefined\<close>.
\<close>

theorem buildQueryString_counterexample:
  "buildQueryString example_platform
     (toRecordFromActivePairs
        [\<lparr>p_name = ''b'', p_value = ''x'', p_active = True, p_enum = None\<rparr>,
         \<lparr>p_name = ''1'', p_value = ''y'', p_active = True, p_enum = None\<rparr>,
         \<lparr>p_name = ''b'', p_value = ''z'', p_active = True, p_enum = None\<rparr>]) = ''1=y&b=z''
   \<and> spec_queryString example_platform
     (spec_activeEntries
        [\<lparr>p_name = ''b'', p_value = ''x'', p_active = True, p_enum = None\<rparr>,
         \<lparr>p_name = ''1'', p_value = ''y'', p_active = True, p_enum = None\<rparr>,
         \<lparr>p_name = ''b'', p_value = ''z'', p_active = True, p_enum = None\<rparr>]) = ''b=x&1=y&b=z''
   \<and> buildQueryString example_platform [(''a'', JNull), (''c'', JStr ''d'')] = ''c=d''
   \<and> spec_queryString example_platform [(''a'', JNull), (''c'', JStr ''d'')] = ''a=&c=d''"
  by code_simp

text \<open>
  Claim C5, amended. The query string of a record holds exactly its entries whose value is
  neither \<^verbatim>\<open>null\<close> nor \<^verbatim>\<open>undefined\<close>, in the order the record enumerates them, each as the
  name, not encoded, \<^verbatim>\<open>=\<close> and the percent-encoded value, joined by \<^verbatim>\<open>&\<close>; an array or an
  object is encoded from its JSON text. The record of a parameter sequence holds the active
  entries that have a name; when their names are plain, the record keeps the order of the
  sequence, so the query string lists them in that order, not sorted.
\<close>

theorem buildQueryString_order:
  "buildQueryString pf entries =
     join ''&'' (map (\<lambda>(key, v). key @ ''='' @ encodeURIComponent (serializeValue pf v))
                   (filter (\<lambda>(key, v). v \<noteq> JNull \<and> v \<noteq> JUndefined) entries))
   \<and> serializeValue pf (JArr xs) = JSON_stringify pf (JArr xs)
   \<and> serializeValue pf (JObj es) = JSON_stringify pf (JObj es)
   \<and> (plain_names params \<longrightarrow>
        toRecordFromActivePairs params =
          map (\<lambda>p. (p_name p, JStr (p_value p)))
            (filter (\<lambda>p. p_name p \<noteq> [] \<and> p_active p) params)
        \<and> buildQueryString pf (toRecordFromActivePairs params) =
          join ''&'' (map (\<lambda>p. p_name p @ ''='' @ encodeURIComponent (p_value p))
                        (filter (\<lambda>p. p_name p \<noteq> [] \<and> p_active p) params)))"
proof (intro conjI impI)
  show "buildQueryString pf entries =
     join ''&'' (map (\<lambda>(key, v). key @ ''='' @ encodeURIComponent (serializeValue pf v))
                   (filter (\<lambda>(key, v). v \<noteq> JNull \<and> v \<noteq> JUndefined) entries))"
    by (rule buildQueryString_eq)
  show "serializeValue pf (JArr xs) = JSON_stringify pf (JArr xs)" by simp
  show "serializeValue pf (JObj es) = JSON_stringify pf (JObj es)" by simp
next
  assume plain: "plain_names params"
  show "toRecordFromActivePairs params =
          map (\<lambda>p. (p_name p, JStr (p_value p)))
            (filter (\<lambda>p. p_name p \<noteq> [] \<and> p_active p) params)"
    by (rule toRecordFromActivePairs_plain [OF plain])
  show "buildQueryString pf (toRecordFromActivePairs params) =
          join ''&'' (map (\<lambda>p. p_name p @ ''='' @ encodeURIComponent (p_value p))
                        (filter (\<lambda>p. p_name p \<noteq> [] \<and> p_active p) params))"
    unfolding toRecordFromActivePairs_plain [OF plain] by (rule buildQueryString_strings)
qed

theorem buildQueryString_order_witness:
  "buildQueryString example_platform
     (toRecordFromActivePairs
        [\<lparr>p_name = ''symbol'', p_value = ''BTC/USDT'', p_active = True, p_enum = None\<rparr>,
         \<lparr>p_name = ''limit'', p_value = ''5'', p_active = False, p_enum = None\<rparr>,
         \<lparr>p_name = ''side'', p_value = ''BUY'', p_active = True, p_enum = None\<rparr>])
     = ''symbol=BTC%2FUSDT&side=BUY''
   \<and> buildQueryString example_platform
       [(''ids'', JArr [JNum ''1'']), (''note'', JNull), (''side'', JStr ''BUY'')]
     = ''ids=%5B1%5D&side=BUY''"
proof -
  let ?ps = "[\<lparr>p_name = ''symbol'', p_value = ''BTC/USDT'', p_active = True, p_enum = None\<rparr>,
         \<lparr>p_name = ''limit'', p_value = ''5'', p_active = False, p_enum = None\<rparr>,
         \<lparr>p_name = ''side'', p_value = ''BUY'', p_active = True, p_enum = None\<rparr>]"
  let ?es = "[(''ids'', JArr [JNum ''1'']), (''note'', JNull), (''side'', JStr ''BUY'')]"
  have plain: "plain_names ?ps" by code_simp
  have q: "join ''&'' (map (\<lambda>p. p_name p @ ''='' @ encodeURIComponent (p_value p))
                        (filter (\<lambda>p. p_name p \<noteq> [] \<and> p_active p) ?ps))
           = ''symbol=BTC%2FUSDT&side=BUY''"
    by code_simp
  have r: "join ''&'' (map (\<lambda>(key, v). key @ ''='' @ encodeURIComponent (serializeValue example_platform v))
                   (filter (\<lambda>(key, v). v \<noteq> JNull \<and> v \<noteq> JUndefined) ?es))
           = ''ids=%5B1%5D&side=BUY''"
    by code_simp
  have a: "buildQueryString example_platform (toRecordFromActivePairs ?ps) =
             join ''&'' (map (\<lambda>p. p_name p @ ''='' @ encodeURIComponent (p_value p))
                        (filter (\<lambda>p. p_name p \<noteq> [] \<and> p_active p) ?ps))"
    and b: "buildQueryString example_platform ?es =
              join ''&'' (map (\<lambda>(key, v). key @ ''='' @ encodeURIComponent (serializeValue example_platform v))
                   (filter (\<lambda>(key, v). v \<noteq> JNull \<and> v \<noteq> JUndefined) ?es))"
    using buildQueryString_order [of example_platform ?es "[JNum ''1'']" "[]" ?ps] plain
    by blast+
  from a [unfolded q] b [unfolded r] show ?thesis by (rule conjI)
qed

section \<open>Claims about the submission and the proxy\<close>

text \<open>
  Claim C4. In a signed submission the two preconditions are checked in order. When the
  trimmed API secret is empty, the submission fails with the message that names the API
  Secret. Otherwise, when no active header with the designated name has a value that is
  non-empty after trimming (in particular when none has a non-empty value), it fails with
  the message that names that header. In both cases no effect has been performed: neither
  the identity hook nor the proxy has been called.
\<close>

theorem signing_preconditions:
  "pr_isSigned pr \<longrightarrow>
     (trim (case f_apiSecret data of None \<Rightarrow> [] | Some s \<Rightarrow> s) = [] \<longrightarrow>
        mutationFn pf env pr data =
          ([], Inl (Error ''API Secret is required for signed endpoints.'')))
     \<and> (trim (case f_apiSecret data of None \<Rightarrow> [] | Some s \<Rightarrow> s) \<noteq> [] \<and>
          (\<forall>h \<in> set (f_headers data).
              p_name h = pr_apiKeyHeaderName pr \<and> p_active h \<longrightarrow> trim (p_value h) = []) \<longrightarrow>
        mutationFn pf env pr data =
          ([], Inl (Error (''Missing '' @ pr_apiKeyHeaderName pr
                           @ '' header. Enable it in Headers and provide your API key.''))))"
  by (auto simp: mutationFn_sign_failure signRequest_no_secret signRequest_no_key
        getHeaderValue_empty)

theorem signing_preconditions_witness:
  "mutationFn example_platform example_environment example_props
     (example_form\<lparr>f_apiSecret := Some ''  '', f_headers := []\<rparr>)
     = ([], Inl (Error ''API Secret is required for signed endpoints.''))
   \<and> mutationFn example_platform example_environment example_props
       (example_form\<lparr>f_headers :=
          [\<lparr>p_name = ''X-MBX-APIKEY'', p_value = ''k3y'', p_active = False, p_enum = None\<rparr>,
           \<lparr>p_name = ''X-MBX-APIKEY'', p_value = '' '', p_active = True, p_enum = None\<rparr>]\<rparr>)
     = ([], Inl (Error ''Missing X-MBX-APIKEY header. Enable it in Headers and provide your API key.''))"
proof -
  have t1: "trim ''  '' = []" by code_simp
  have t2: "trim ''s3cr3t'' = ''s3cr3t''" by code_simp
  have t3: "trim '' '' = []" by code_simp
  show ?thesis
    using signing_preconditions
            [of example_props "example_form\<lparr>f_apiSecret := Some ''  '', f_headers := []\<rparr>"
                example_platform example_environment]
          signing_preconditions
            [of example_props "example_form\<lparr>f_headers :=
          [\<lparr>p_name = ''X-MBX-APIKEY'', p_value = ''k3y'', p_active = False, p_enum = None\<rparr>,
           \<lparr>p_name = ''X-MBX-APIKEY'', p_value = '' '', p_active = True, p_enum = None\<rparr>]\<rparr>"
                example_platform example_environment]
    by (simp add: example_props_def example_form_def t1 t2 t3)
qed

text \<open>
  Claim C2. The forwarder answers 400 and calls no upstream, in this order of checks: with
  \<^verbatim>\<open>Invalid payload. Expected { method, url, headers?, body? }\<close> when \<^verbatim>\<open>url\<close> or \<^verbatim>\<open>method\<close> is
  missing (or empty); else with \<^verbatim>\<open>Invalid URL\<close> when the URL does not parse; else with
  \<^verbatim>\<open>Only https URLs are allowed\<close> when its protocol is not \<^verbatim>\<open>https:\<close>.
\<close>

theorem proxy_rejections:
  "r_status (rejected origin m) = 400 \<and> r_body (rejected origin m) = Text m
   \<and> (falsy (pb_url payload) \<or> falsy (pb_method payload) \<longrightarrow>
        proxy_post newURL upstream origin (Inr payload) =
          ([], rejected origin ''Invalid payload. Expected { method, url, headers?, body? }''))
   \<and> (\<not> falsy (pb_method payload) \<and> url \<noteq> [] \<and> pb_url payload = Some url
        \<and> newURL url = None \<longrightarrow>
        proxy_post newURL upstream origin (Inr payload) = ([], rejected origin ''Invalid URL''))
   \<and> (\<not> falsy (pb_method payload) \<and> url \<noteq> [] \<and> pb_url payload = Some url
        \<and> newURL url = Some protocol \<and> protocol \<noteq> ''https:'' \<longrightarrow>
        proxy_post newURL upstream origin (Inr payload) =
          ([], rejected origin ''Only https URLs are allowed''))"
  by (auto simp: proxy_post_def proxy_checked_def rejected_def falsy_def)

theorem proxy_rejections_witness:
  "proxy_post example_newURL example_upstream None
     (Inr \<lparr>pb_method = Some ''GET'', pb_url = Some ''http://insecure.example.com'',
           pb_headers = None, pb_body = None\<rparr>)
     = ([], rejected None ''Only https URLs are allowed'')
   \<and> proxy_post example_newURL example_upstream None
     (Inr \<lparr>pb_method = Some ''GET'', pb_url = Some ''insecure'',
           pb_headers = None, pb_body = None\<rparr>)
     = ([], rejected None ''Invalid URL'')
   \<and> proxy_post example_newURL example_upstream None
     (Inr \<lparr>pb_method = None, pb_url = Some ''http://insecure.example.com'',
           pb_headers = None, pb_body = None\<rparr>)
     = ([], rejected None ''Invalid payload. Expected { method, url, headers?, body? }'')"
proof -
  have u1: "example_newURL ''http://insecure.example.com'' = Some ''http:''" by code_simp
  have u2: "example_newURL ''insecure'' = None" by code_simp
  show ?thesis
    using proxy_rejections
        [of None _ "\<lparr>pb_method = Some ''GET'', pb_url = Some ''http://insecure.example.com'',
           pb_headers = None, pb_body = None\<rparr>" example_newURL example_upstream
           "''http://insecure.example.com''" "''http:''"]
      proxy_rejections
        [of None _ "\<lparr>pb_method = Some ''GET'', pb_url = Some ''insecure'',
           pb_headers = None, pb_body = None\<rparr>" example_newURL example_upstream
           "''insecure''" "''http:''"]
      proxy_rejections
        [of None _ "\<lparr>pb_method = None, pb_url = Some ''http://insecure.example.com'',
           pb_headers = None, pb_body = None\<rparr>" example_newURL example_upstream
           "''http://insecure.example.com''" "''http:''"]
    by (simp add: u1 u2 falsy_def)
qed

text \<open>
  Claim C8. When the method is \<^verbatim>\<open>GET\<close> or \<^verbatim>\<open>HEAD\<close> in any letter case, the envelope the
  playground posts has no body, whatever the form holds, and neither has the request handed to
  the identity hook; and the forwarder passes no body to the upstream \<^verbatim>\<open>fetch\<close>, whatever the
  envelope holds.
\<close>

theorem no_body_for_GET_and_HEAD:
  "(toUpperCase (pr_method pr) \<in> set [''GET'', ''HEAD'']
      \<and> mutationFn pf env pr data = (effects, Inr posted) \<longrightarrow>
      en_body posted = None
      \<and> (effects = [ProxyFetch (getProxyUrl env) posted]
           \<or> (\<exists>i r. effects = [Authorize i r, ProxyFetch (getProxyUrl env) posted]
                      \<and> rq_body r = None)))
   \<and> (pb_method payload = Some m \<and> toUpperCase m \<in> set [''GET'', ''HEAD'']
      \<longrightarrow> (\<forall>c \<in> set (fst (proxy_post newURL upstream origin (Inr payload))).
              fc_body c = None))"
proof (intro conjI impI)
  assume a: "toUpperCase (pr_method pr) \<in> set [''GET'', ''HEAD'']
      \<and> mutationFn pf env pr data = (effects, Inr posted)"
  then have g: "\<And>body. requestBodyForSend (pr_method pr) body = None"
    by (simp add: requestBodyForSend_def)
  from a have m: "mutationFn pf env pr data = (effects, Inr posted)" by simp
  from m show "en_body posted = None"
    unfolding mutationFn_def
    by (auto simp: Let_def g split: sum.splits prod.splits if_splits)
  from m show "effects = [ProxyFetch (getProxyUrl env) posted]
           \<or> (\<exists>i r. effects = [Authorize i r, ProxyFetch (getProxyUrl env) posted]
                      \<and> rq_body r = None)"
    unfolding mutationFn_def
    by (auto simp: Let_def g split: sum.splits prod.splits if_splits)
next
  assume b: "pb_method payload = Some m \<and> toUpperCase m \<in> set [''GET'', ''HEAD'']"
  show "\<forall>c \<in> set (fst (proxy_post newURL upstream origin (Inr payload))). fc_body c = None"
  proof
    fix c assume "c \<in> set (fst (proxy_post newURL upstream origin (Inr payload)))"
    then have "c = upstream_call payload"
      using proxy_post_calls by fastforce
    then show "fc_body c = None"
      using b upstream_call_GET [of payload m] by simp
  qed
qed

theorem no_body_for_GET_and_HEAD_witness:
  "snd (mutationFn example_platform example_environment
          (example_props\<lparr>pr_method := ''get'', pr_isSigned := False\<rparr>)
          (example_form\<lparr>f_body := ''{}''\<rparr>))
     = Inr \<lparr>en_method = ''GET'', en_url = ''https://api.example.com/orders'',
            en_headers = [(''X-MBX-APIKEY'', ''k3y'')], en_body = None\<rparr>
   \<and> fst (proxy_post example_newURL example_upstream None
       (Inr \<lparr>pb_method = Some ''head'', pb_url = Some ''https://api.example.com/orders'',
             pb_headers = None, pb_body = Some ''{}''\<rparr>))
     = [\<lparr>fc_url = ''https://api.example.com/orders'', fc_method = ''HEAD'', fc_headers = [],
         fc_body = None\<rparr>]"
proof -
  let ?pr = "example_props\<lparr>pr_method := ''get'', pr_isSigned := False\<rparr>"
  let ?data = "example_form\<lparr>f_body := ''{}''\<rparr>"
  let ?payload = "\<lparr>pb_method = Some ''head'', pb_url = Some ''https://api.example.com/orders'',
             pb_headers = None, pb_body = Some ''{}''\<rparr>"
  have up1: "toUpperCase ''get'' = ''GET''" and up2: "toUpperCase ''head'' = ''HEAD''"
    by code_simp+
  let ?posted = "\<lparr>en_method = ''GET'', en_url = ''https://api.example.com/orders'',
              en_headers = [(''X-MBX-APIKEY'', ''k3y'')],
              en_body = envelopeBody (requestBodyForSend ''get'' (Some (BodyString ''{}'')))\<rparr>"
  let ?effects = "[ProxyFetch ''/__zudoku/playground/proxy'' ?posted]"
  have run: "mutationFn example_platform example_environment ?pr ?data = (?effects, Inr ?posted)"
    by (simp add: mutationFn_def example_props_def example_form_def example_environment_def
          selectBody_def NO_IDENTITY_def getProxyUrl_def up1 Let_def)
  have calls: "fst (proxy_post example_newURL example_upstream None (Inr ?payload))
                 = [upstream_call ?payload]"
    by code_simp
  have call: "upstream_call ?payload =
                \<lparr>fc_url = ''https://api.example.com/orders'', fc_method = ''HEAD'',
                 fc_headers = [], fc_body = fc_body (upstream_call ?payload)\<rparr>"
    by code_simp
  from no_body_for_GET_and_HEAD
         [of ?pr example_platform example_environment ?data ?effects ?posted ?payload "''head''"
             example_newURL example_upstream None] run
  have "en_body ?posted = None" and "fc_body (upstream_call ?payload) = None"
    by (simp_all add: up1 up2 calls)
  then show ?thesis
    using run calls call by simp
qed

section \<open>Claims about the signature and the form state\<close>



text \<open>
  Claim C9. \<^verbatim>\<open>mutationFn\<close>, signed or not, writes only to cells it allocated itself: every
  object and every array of the store it was called in is afterwards what it was before, so
  the form state passed in denotes the same form. (The writes all precede the call of the
  proxy, so this holds however the submission ends.)
\<close>

theorem form_state_untouched:
  "take (length (objs st)) (objs (fst (mutationFn_at pf pr st data))) = objs st
   \<and> take (length (arrs st)) (arrs (fst (mutationFn_at pf pr st data))) = arrs st
   \<and> (well_formed st data \<longrightarrow> deref (fst (mutationFn_at pf pr st data)) data = deref st data)"
proof -
  have e: "extends st (fst (mutationFn_at pf pr st data))"
    by (rule extends_mutationFn_at)
  show ?thesis
    using e extends_deref [OF e] by (simp add: extends_def)
qed

theorem form_state_untouched_witness:
  "deref (fst (mutationFn_at example_platform example_props example_store example_ref))
     example_ref = example_form
   \<and> take 2 (objs (fst (mutationFn_at example_platform example_props example_store example_ref)))
       = objs example_store
   \<and> take 2 (arrs (fst (mutationFn_at example_platform example_props example_store example_ref)))
       = arrs example_store"
proof -
  let ?r = "fst (mutationFn_at example_platform example_props example_store example_ref)"
  have wf: "well_formed example_store example_ref"
    by (simp add: well_formed_def example_store_def example_ref_def)
  have d: "deref example_store example_ref = example_form"
    by (simp add: deref_def array_at_def example_store_def example_ref_def example_form_def)
  have l: "length (objs example_store) = 2" "length (arrs example_store) = 2"
    by (simp_all add: example_store_def)
  have a: "take (length (objs example_store)) (objs ?r) = objs example_store"
    and b: "take (length (arrs example_store)) (arrs ?r) = arrs example_store"
    and c: "deref ?r example_ref = deref example_store example_ref"
    using form_state_untouched [of example_store example_platform example_props example_ref] wf
    by blast+
  from c [unfolded d] a [unfolded l] b [unfolded l] show ?thesis
    by (intro conjI)
qed




end
